theory Spec2Isabelle
  imports Main "HOL-Library.AList"
begin

section \<open>Ranges\<close>

text \<open>
  The controller of \<^verbatim>\<open>commentsController.ts\<close> works on line/column ranges.
  \<^verbatim>\<open>IRange\<close> is the plain interface (four numbers); line and column numbers are
  JavaScript numbers holding integers, modelled as \<^typ>\<open>int\<close>.
\<close>

record IRange =
  startLineNumber :: int
  startColumn :: int
  endLineNumber :: int
  endColumn :: int

text \<open>
  Modelled from the spec: the class \<^verbatim>\<open>Range\<close> of
  \<^verbatim>\<open>vs/editor/common/core/range\<close> is imported by the controller but is not among the
  source files. The spec describes a range as \<^verbatim>\<open>{startLine, startCol, endLine, endCol}\<close>
  in document coordinates. Its constructor orders the two end points (a range whose start
  lies after its end is stored with the end points exchanged); the operations below are the
  ones the controller calls.
\<close>

definition Range_new :: "int \<Rightarrow> int \<Rightarrow> int \<Rightarrow> int \<Rightarrow> IRange" where
  "Range_new sl sc el ec =
     (if sl > el \<or> (sl = el \<and> sc > ec)
      then \<lparr>startLineNumber = el, startColumn = ec, endLineNumber = sl, endColumn = sc\<rparr>
      else \<lparr>startLineNumber = sl, startColumn = sc, endLineNumber = el, endColumn = ec\<rparr>)"

definition isEmpty :: "IRange \<Rightarrow> bool" where
  "isEmpty r \<longleftrightarrow> startLineNumber r = endLineNumber r \<and> startColumn r = endColumn r"

definition collapseToStart :: "IRange \<Rightarrow> IRange" where
  "collapseToStart r =
     Range_new (startLineNumber r) (startColumn r) (startLineNumber r) (startColumn r)"

definition intersectRanges :: "IRange \<Rightarrow> IRange \<Rightarrow> IRange option" where
  "intersectRanges a b =
     (let (rsl, rsc) =
            (if startLineNumber a < startLineNumber b then (startLineNumber b, startColumn b)
             else if startLineNumber a = startLineNumber b
               then (startLineNumber a, max (startColumn a) (startColumn b))
             else (startLineNumber a, startColumn a));
          (rel, rec) =
            (if endLineNumber a > endLineNumber b then (endLineNumber b, endColumn b)
             else if endLineNumber a = endLineNumber b
               then (endLineNumber a, min (endColumn a) (endColumn b))
             else (endLineNumber a, endColumn a))
      in if rsl > rel then None
         else if rsl = rel \<and> rsc > rec then None
         else Some (Range_new rsl rsc rel rec))"

definition plusRange :: "IRange \<Rightarrow> IRange \<Rightarrow> IRange" where
  "plusRange a b =
     (let (sl, sc) =
            (if startLineNumber b < startLineNumber a then (startLineNumber b, startColumn b)
             else if startLineNumber b = startLineNumber a
               then (startLineNumber b, min (startColumn b) (startColumn a))
             else (startLineNumber a, startColumn a));
          (el, ec) =
            (if endLineNumber b > endLineNumber a then (endLineNumber b, endColumn b)
             else if endLineNumber b = endLineNumber a
               then (endLineNumber b, max (endColumn b) (endColumn a))
             else (endLineNumber a, endColumn a))
      in Range_new sl sc el ec)"

definition equalsRange :: "IRange option \<Rightarrow> IRange option \<Rightarrow> bool" where
  "equalsRange a b =
     (case (a, b) of
        (None, None) \<Rightarrow> True
      | (Some x, Some y) \<Rightarrow>
          startLineNumber x = startLineNumber y \<and> startColumn x = startColumn y \<and>
          endLineNumber x = endLineNumber y \<and> endColumn x = endColumn y
      | _ \<Rightarrow> False)"

text \<open>The lines a range covers, both end lines included.\<close>

definition rangeLines :: "IRange \<Rightarrow> int set" where
  "rangeLines r = {startLineNumber r .. endLineNumber r}"

section \<open>Commenting ranges and their decorations\<close>

text \<open>
  \<^verbatim>\<open>languages.CommentingRanges\<close> is an object; the controller compares two of them with
  \<^verbatim>\<open>===\<close>, that is by identity. The model gives every such object an address and
  compares addresses.
\<close>

record CommentingRanges =
  cr_address :: nat
  ranges :: "IRange list"
  fileComments :: bool

definition sameObject :: "CommentingRanges \<Rightarrow> CommentingRanges \<Rightarrow> bool" where
  "sameObject a b \<longleftrightarrow> cr_address a = cr_address b"

record CommentRangeAction =
  ownerId :: string
  extensionId :: "string option"
  label :: "string option"
  commentingRangesInfo :: CommentingRanges

text \<open>The three decoration option objects the decorator's constructor creates.\<close>

datatype ModelDecorationOptions =
  decorationOptions | hoverDecorationOptions | multilineDecorationOptions

text \<open>
  Class \<^verbatim>\<open>CommentingRangeDecoration\<close>: the constructor parameters are private fields
  (prefix \<open>d\<close>), the constructor copies the two line numbers of the range it is given.
\<close>

record CommentingRangeDecoration =
  decorationId :: "string option"
  d_startLineNumber :: int
  d_endLineNumber :: int
  d_ownerId :: string
  d_extensionId :: "string option"
  d_label :: "string option"
  d_range :: IRange
  options :: ModelDecorationOptions
  d_commentingRangesInfo :: CommentingRanges
  isHover :: bool

definition new_CommentingRangeDecoration ::
  "string \<Rightarrow> string option \<Rightarrow> string option \<Rightarrow> IRange \<Rightarrow> ModelDecorationOptions \<Rightarrow>
   CommentingRanges \<Rightarrow> bool \<Rightarrow> CommentingRangeDecoration" where
  "new_CommentingRangeDecoration own ext lbl rng opts info hov =
     \<lparr>decorationId = None,
      d_startLineNumber = startLineNumber rng,
      d_endLineNumber = endLineNumber rng,
      d_ownerId = own, d_extensionId = ext, d_label = lbl, d_range = rng,
      options = opts, d_commentingRangesInfo = info, isHover = hov\<rparr>"

text \<open>The getter \<^verbatim>\<open>range\<close>: what the editor receives for the decoration.\<close>

definition decoration_range :: "CommentingRangeDecoration \<Rightarrow> IRange" where
  "decoration_range d =
     \<lparr>startLineNumber = d_startLineNumber d, startColumn = 1,
      endLineNumber = d_endLineNumber d, endColumn = 1\<rparr>"

definition getCommentAction :: "CommentingRangeDecoration \<Rightarrow> CommentRangeAction" where
  "getCommentAction d =
     \<lparr>ownerId = d_ownerId d, extensionId = d_extensionId d, label = d_label d,
      commentingRangesInfo = d_commentingRangesInfo d\<rparr>"

definition getOriginalRange :: "CommentingRangeDecoration \<Rightarrow> IRange" where
  "getOriginalRange d = d_range d"

section \<open>The editor, as far as the decorator uses it\<close>

text \<open>
  The editor is an external collaborator, and its state changes under the controller
  (text edits move decorations). The functions below take the editor in its current state
  as an argument. The model keeps what the controller asks of it: whether a text model is
  attached and the uri of that model, the descriptions of the decorations in a range
  (\<open>None\<close> for \<^verbatim>\<open>null\<close>), the current range of a decoration id (\<open>None\<close> for
  \<^verbatim>\<open>null\<close>), and the ids \<^verbatim>\<open>deltaDecorations\<close> hands out for a list of new ranges.
\<close>

record ICodeEditor =
  hasModel :: bool
  modelUri :: string
  getDecorationsInRange :: "IRange \<Rightarrow> string list option"
  getDecorationRange :: "string \<Rightarrow> IRange option"
  deltaDecorations :: "string list \<Rightarrow> (IRange \<times> ModelDecorationOptions) list \<Rightarrow> string list"

text \<open>
  Modelled from the spec: \<^verbatim>\<open>CommentGlyphWidget.description\<close>, the description string
  of a comment-thread glyph decoration, is declared in \<^verbatim>\<open>commentGlyphWidget.ts\<close>,
  which is not among the source files.
\<close>

definition CommentGlyphWidget_description :: string where
  "CommentGlyphWidget_description = ''comment-glyph-widget''"

definition lineHasThread :: "ICodeEditor \<Rightarrow> IRange \<Rightarrow> bool" where
  "lineHasThread editor lineRange =
     (case getDecorationsInRange editor lineRange of
        None \<Rightarrow> False
      | Some decorations \<Rightarrow>
          find (\<lambda>description. description = CommentGlyphWidget_description) decorations \<noteq> None)"

text \<open>
  \<^verbatim>\<open>getActiveRange\<close>: a decoration without an id (or with the empty id) has no active
  range; otherwise the range is what the editor's model answers for the id. The source reads
  the model with a non-null assertion (\<^verbatim>\<open>getModel()!\<close>); the model of a decoration with an
  id is taken to be attached, as the source takes it.
\<close>

definition getActiveRange :: "ICodeEditor \<Rightarrow> CommentingRangeDecoration \<Rightarrow> IRange option" where
  "getActiveRange editor d =
     (case decorationId d of
        None \<Rightarrow> None
      | Some i \<Rightarrow> if i = [] then None else getDecorationRange editor i)"

section \<open>Comment threads and provider infos\<close>

datatype CommentBody = StringBody string | MarkdownBody string

text \<open>
  The body text of a comment: \<^verbatim>\<open>body\<close> itself when it is a string, \<^verbatim>\<open>body.value\<close>
  when it is a markdown string.
\<close>

fun bodyText :: "CommentBody \<Rightarrow> string" where
  "bodyText (StringBody s) = s"
| "bodyText (MarkdownBody s) = s"

record Comment =
  uniqueIdInThread :: int
  body :: CommentBody

datatype CommentThreadCollapsibleState = Collapsed | Expanded

datatype CommentThreadState = Unresolved | Resolved

text \<open>
  A comment thread is an object of the comment service; \<open>thread_address\<close> is its identity
  (the controller compares threads with \<^verbatim>\<open>===\<close>). \<^verbatim>\<open>undefined\<close> and \<^verbatim>\<open>null\<close> are
  \<open>None\<close>.
\<close>

record CommentThread =
  thread_address :: nat
  commentThreadHandle :: int
  threadId :: "string option"
  resource :: "string option"
  thread_range :: "IRange option"
  comments :: "Comment list option"
  collapsibleState :: "CommentThreadCollapsibleState option"
  thread_state :: "CommentThreadState option"
  isDisposed :: bool

record PendingCommentThread =
  pending_owner :: string
  pending_uri :: string
  pending_range :: IRange
  pending_body :: string

record ICommentInfo =
  owner :: string
  info_extensionId :: "string option"
  info_label :: "string option"
  commentingRanges :: CommentingRanges
  threads :: "CommentThread list"
  pendingCommentThreads :: "PendingCommentThread list option"

section \<open>The commenting range decorator\<close>

text \<open>
  The decorator and its decorations hold a reference to the editor; \<open>decorator_hasEditor\<close>
  says whether \<^verbatim>\<open>_editor\<close> is set, and the editor itself is an argument.
\<close>

record CommentingRangeDecorator =
  commentingRangeDecorations :: "CommentingRangeDecoration list"
  decorationIds :: "string list"
  decorator_hasEditor :: bool
  decorator_infos :: "ICommentInfo list option"
  lastHover :: int
  lastSelection :: "IRange option"
  lastSelectionCursor :: "int option"

definition newDecoration ::
  "ICommentInfo \<Rightarrow> IRange \<Rightarrow> ModelDecorationOptions \<Rightarrow> bool \<Rightarrow> CommentingRangeDecoration" where
  "newDecoration info rng opts hov =
     new_CommentingRangeDecoration (owner info) (info_extensionId info) (info_label info)
       rng opts (commentingRanges info) hov"

text \<open>
  The first branch of the loop body of \<^verbatim>\<open>_doUpdate\<close>: a selection meets the provider
  range. \<open>isr\<close> is the intersection; the decorations are listed in the order they are
  pushed.
\<close>

definition selectionSplit ::
  "ICodeEditor \<Rightarrow> ICommentInfo \<Rightarrow> int \<Rightarrow> IRange \<Rightarrow> IRange \<Rightarrow> IRange \<Rightarrow>
   CommentingRangeDecoration list" where
  "selectionSplit editor info emphasisLine rangeObject rng isr =
     (let (intersectingEmphasisRange, intersectingSelectionRange) =
            (if emphasisLine \<le> startLineNumber isr
             then (collapseToStart isr,
                   Range_new (startLineNumber isr + 1) 1 (endLineNumber isr) 1)
             else (Range_new (endLineNumber isr) 1 (endLineNumber isr) 1,
                   Range_new (startLineNumber isr) 1 (endLineNumber isr - 1) 1));
          beforeRangeEndLine =
            min (startLineNumber intersectingEmphasisRange)
                (startLineNumber intersectingSelectionRange) - 1;
          hasBeforeRange = (startLineNumber rangeObject \<le> beforeRangeEndLine);
          afterRangeStartLine =
            max (endLineNumber intersectingEmphasisRange)
                (endLineNumber intersectingSelectionRange) + 1;
          hasAfterRange = (endLineNumber rangeObject \<ge> afterRangeStartLine)
      in [newDecoration info intersectingSelectionRange multilineDecorationOptions True]
         @ (if \<not> lineHasThread editor intersectingEmphasisRange
            then [newDecoration info intersectingEmphasisRange hoverDecorationOptions True]
            else [])
         @ (if hasBeforeRange
            then [newDecoration info (Range_new (startLineNumber rng) 1 beforeRangeEndLine 1)
                    decorationOptions True]
            else [])
         @ (if hasAfterRange
            then [newDecoration info (Range_new afterRangeStartLine 1 (endLineNumber rng) 1)
                    decorationOptions True]
            else []))"

text \<open>The second branch: the emphasis line lies in the provider range.\<close>

definition emphasisSplit ::
  "ICodeEditor \<Rightarrow> ICommentInfo \<Rightarrow> int \<Rightarrow> IRange \<Rightarrow> IRange \<Rightarrow>
   CommentingRangeDecoration list" where
  "emphasisSplit editor info emphasisLine rangeObject rng =
     (if startLineNumber rangeObject < emphasisLine
      then [newDecoration info (Range_new (startLineNumber rng) 1 (emphasisLine - 1) 1)
              decorationOptions True]
      else [])
     @ (if \<not> lineHasThread editor (Range_new emphasisLine 1 emphasisLine 1)
        then [newDecoration info (Range_new emphasisLine 1 emphasisLine 1)
                hoverDecorationOptions True]
        else [])
     @ (if emphasisLine < endLineNumber rangeObject
        then [newDecoration info (Range_new (emphasisLine + 1) 1 (endLineNumber rng) 1)
                decorationOptions True]
        else [])"

text \<open>
  The loop body of \<^verbatim>\<open>_doUpdate\<close> for one range of one provider: the three branches,
  tested in the order of the source.
\<close>

definition emitForRange ::
  "ICodeEditor \<Rightarrow> ICommentInfo \<Rightarrow> int \<Rightarrow> IRange option \<Rightarrow> IRange \<Rightarrow>
   CommentingRangeDecoration list" where
  "emitForRange editor info emphasisLine selectionRange rng =
     (let rangeObject =
            Range_new (startLineNumber rng) (startColumn rng) (endLineNumber rng) (endColumn rng);
          intersectingSelectionRange =
            (case selectionRange of
               None \<Rightarrow> None
             | Some s \<Rightarrow> intersectRanges rangeObject s);
          otherwise =
            (if startLineNumber rangeObject \<le> emphasisLine \<and> emphasisLine \<le> endLineNumber rangeObject
             then emphasisSplit editor info emphasisLine rangeObject rng
             else [newDecoration info rng decorationOptions False])
      in case intersectingSelectionRange of
           None \<Rightarrow> otherwise
         | Some isr \<Rightarrow>
             if (selectionRange \<noteq> None \<and> emphasisLine \<ge> 0)
                \<and> \<not> (startLineNumber isr = endLineNumber isr \<and> emphasisLine = startLineNumber isr)
             then selectionSplit editor info emphasisLine rangeObject rng isr
             else otherwise)"

definition computeDecorations ::
  "ICodeEditor \<Rightarrow> ICommentInfo list \<Rightarrow> int \<Rightarrow> IRange option \<Rightarrow> CommentingRangeDecoration list" where
  "computeDecorations editor commentInfos emphasisLine selectionRange =
     concat (map (\<lambda>info.
        concat (map (emitForRange editor info emphasisLine selectionRange)
                  (ranges (commentingRanges info))))
       commentInfos)"

text \<open>
  \<^verbatim>\<open>_doUpdate\<close>: the arguments left out by the caller are \<open>None\<close> (the defaults are
  \<open>-1\<close> and the last selection). The result is the new decorator and the count the
  change event fires with, if it fires.
\<close>

definition doUpdate ::
  "CommentingRangeDecorator \<Rightarrow> ICodeEditor \<Rightarrow> ICommentInfo list \<Rightarrow> int option \<Rightarrow> IRange option \<Rightarrow>
   CommentingRangeDecorator \<times> nat option" where
  "doUpdate this editor commentInfos emphasisLineArg selectionRangeArg =
     (if \<not> hasModel editor then (this, None)
      else
        let selectionRange =
              (case selectionRangeArg of None \<Rightarrow> lastSelection this | Some s \<Rightarrow> Some s);
            emphasisLine =
              (case lastSelectionCursor this of
                 Some c \<Rightarrow> c
               | None \<Rightarrow> (case emphasisLineArg of None \<Rightarrow> - 1 | Some l \<Rightarrow> l));
            decorations = computeDecorations editor commentInfos emphasisLine selectionRange;
            ids = deltaDecorations editor (decorationIds this)
                    (map (\<lambda>d. (decoration_range d, options d)) decorations);
            decorations' =
              map (\<lambda>(d, index). d\<lparr>decorationId :=
                     (if index < length ids then Some (ids ! index) else None)\<rparr>)
                (zip decorations [0 ..< length decorations]);
            rangesDifference =
              int (length (commentingRangeDecorations this)) - int (length decorations')
        in (this\<lparr>decorationIds := ids, commentingRangeDecorations := decorations'\<rparr>,
            if rangesDifference \<noteq> 0 then Some (length decorations') else None))"

definition update ::
  "CommentingRangeDecorator \<Rightarrow> ICodeEditor option \<Rightarrow> ICommentInfo list \<Rightarrow> int option \<Rightarrow>
   IRange option \<Rightarrow> CommentingRangeDecorator \<times> nat option" where
  "update this editor commentInfos cursorLine rng =
     (case editor of
        None \<Rightarrow> (this, None)
      | Some ed \<Rightarrow>
          doUpdate (this\<lparr>decorator_hasEditor := True, decorator_infos := Some commentInfos\<rparr>)
            ed commentInfos cursorLine rng)"

definition updateHover ::
  "CommentingRangeDecorator \<Rightarrow> ICodeEditor \<Rightarrow> int option \<Rightarrow>
   CommentingRangeDecorator \<times> nat option" where
  "updateHover this ed hoverLine =
     (let (this', fired) =
            (case decorator_infos this of
               Some infos \<Rightarrow>
                 if decorator_hasEditor this \<and> hoverLine \<noteq> Some (lastHover this)
                 then doUpdate this ed infos hoverLine None
                 else (this, None)
             | None \<Rightarrow> (this, None))
      in (this'\<lparr>lastHover := (case hoverLine of None \<Rightarrow> - 1 | Some l \<Rightarrow> l)\<rparr>, fired))"

definition updateSelection ::
  "CommentingRangeDecorator \<Rightarrow> ICodeEditor \<Rightarrow> int \<Rightarrow> IRange option \<Rightarrow>
   CommentingRangeDecorator \<times> nat option" where
  "updateSelection this ed cursorLine rangeArg =
     (let rng = (case rangeArg of None \<Rightarrow> Range_new 0 0 0 0 | Some r \<Rightarrow> r);
          this' = this\<lparr>lastSelection := (if isEmpty rng then None else Some rng),
                       lastSelectionCursor := (if isEmpty rng then None else Some cursorLine)\<rparr>
      in case decorator_infos this' of
           Some infos \<Rightarrow>
             if decorator_hasEditor this'
             then doUpdate this' ed infos (Some cursorLine) (Some rng)
             else (this', None)
         | None \<Rightarrow> (this', None))"

text \<open>The lines of the range a decoration submits to the editor.\<close>

definition decorationLines :: "CommentingRangeDecoration \<Rightarrow> int set" where
  "decorationLines d = rangeLines (decoration_range d)"

section \<open>Queries of the decorator\<close>

definition areRangesIntersectingOrTouchingByLine :: "IRange \<Rightarrow> IRange \<Rightarrow> bool" where
  "areRangesIntersectingOrTouchingByLine a b =
     (if endLineNumber a < startLineNumber b - 1 then False
      else if endLineNumber b + 1 < startLineNumber a then False
      else True)"

text \<open>
  \<^verbatim>\<open>foundHoverActions\<close> is a JavaScript \<^verbatim>\<open>Map\<close> keyed by owner id: \<^verbatim>\<open>set\<close> on a
  key already present replaces the value and keeps the key's place, \<^verbatim>\<open>set\<close> on a new
  key appends it, and \<^verbatim>\<open>values()\<close> lists in that order. An association list with
  \<^const>\<open>AList.update\<close> behaves so.
\<close>

type_synonym FoundHoverActions = "(string \<times> (IRange \<times> CommentRangeAction)) list"

text \<open>The body of the loop over the decorations in \<^verbatim>\<open>getMatchedCommentAction\<close>.\<close>

definition matchDecoration ::
  "ICodeEditor \<Rightarrow> IRange \<Rightarrow> FoundHoverActions \<Rightarrow> CommentingRangeDecoration \<Rightarrow> FoundHoverActions" where
  "matchDecoration editor commentRange foundHoverActions decoration =
     (case getActiveRange editor decoration of
        None \<Rightarrow> foundHoverActions
      | Some rng \<Rightarrow>
          if areRangesIntersectingOrTouchingByLine rng commentRange
          then
            let action = getCommentAction decoration in
            (case map_of foundHoverActions (ownerId action) of
               None \<Rightarrow> AList.update (ownerId action) (rng, action) foundHoverActions
             | Some (alreadyRange, alreadyAction) \<Rightarrow>
                 if sameObject (commentingRangesInfo alreadyAction) (commentingRangesInfo action)
                 then
                   let newRange = Range_new
                         (if startLineNumber rng < startLineNumber alreadyRange
                          then startLineNumber rng else startLineNumber alreadyRange)
                         (if startColumn rng < startColumn alreadyRange
                          then startColumn rng else startColumn alreadyRange)
                         (if endLineNumber rng > endLineNumber alreadyRange
                          then endLineNumber rng else endLineNumber alreadyRange)
                         (if endColumn rng > endColumn alreadyRange
                          then endColumn rng else endColumn alreadyRange)
                   in AList.update (ownerId action) (newRange, action) foundHoverActions
                 else AList.update (ownerId action) (rng, action) foundHoverActions)
          else foundHoverActions)"

definition foundHoverActionsFor ::
  "ICodeEditor \<Rightarrow> IRange \<Rightarrow> CommentingRangeDecoration list \<Rightarrow> FoundHoverActions" where
  "foundHoverActionsFor editor commentRange decorations =
     foldl (matchDecoration editor commentRange) [] decorations"

definition getMatchedCommentAction ::
  "CommentingRangeDecorator \<Rightarrow> ICodeEditor \<Rightarrow> IRange option \<Rightarrow> CommentRangeAction list" where
  "getMatchedCommentAction this editor commentRange =
     (case commentRange of
        None \<Rightarrow>
          (case decorator_infos this of
             None \<Rightarrow> []
           | Some infos \<Rightarrow>
               map (\<lambda>foundInfo.
                      \<lparr>ownerId = owner foundInfo, extensionId = info_extensionId foundInfo,
                       label = info_label foundInfo,
                       commentingRangesInfo = commentingRanges foundInfo\<rparr>)
                 (filter (\<lambda>info. fileComments (commentingRanges info)) infos))
      | Some cr \<Rightarrow>
          map snd
            (filter (\<lambda>(rng, action).
                       startLineNumber rng \<le> startLineNumber cr
                       \<and> endLineNumber cr \<le> endLineNumber rng)
               (map snd
                  (foundHoverActionsFor editor cr (commentingRangeDecorations this)))))"

record Position =
  lineNumber :: int
  column :: int

text \<open>
  Errors the controller raises: the \<^verbatim>\<open>TypeError\<close> of reading a property of
  \<^verbatim>\<open>undefined\<close>, and the \<^verbatim>\<open>Error\<close> that \<^verbatim>\<open>addCommentAtLine\<close> throws.
\<close>

datatype error = TypeError | NoCommentingRangesError

text \<open>
  The loop of \<^verbatim>\<open>getNearestCommentingRange\<close>: \<open>Some\<close> when the loop returns a range,
  \<open>None\<close> when it runs to its end. \<open>findPositionContainedWithin\<close> is the accumulator.
\<close>

fun nearestScan ::
  "ICodeEditor \<Rightarrow> Position \<Rightarrow> bool \<Rightarrow> IRange option \<Rightarrow> CommentingRangeDecoration list \<Rightarrow>
   IRange option" where
  "nearestScan editor findPosition reverse findPositionContainedWithin [] = None"
| "nearestScan editor findPosition reverse findPositionContainedWithin (decoration # rest) =
     (case getActiveRange editor decoration of
        None \<Rightarrow> nearestScan editor findPosition reverse findPositionContainedWithin rest
      | Some rng \<Rightarrow>
          (case (case findPositionContainedWithin of
                   None \<Rightarrow> None
                 | Some within \<Rightarrow>
                     if areRangesIntersectingOrTouchingByLine rng within
                     then Some (plusRange within rng) else None) of
             Some merged \<Rightarrow> nearestScan editor findPosition reverse (Some merged) rest
           | None \<Rightarrow>
               if startLineNumber rng \<le> lineNumber findPosition
                  \<and> lineNumber findPosition \<le> endLineNumber rng
               then nearestScan editor findPosition reverse
                      (Some (Range_new (startLineNumber rng) (startColumn rng)
                               (endLineNumber rng) (endColumn rng))) rest
               else if \<not> reverse \<and> endLineNumber rng < lineNumber findPosition
               then nearestScan editor findPosition reverse findPositionContainedWithin rest
               else if reverse \<and> startLineNumber rng > lineNumber findPosition
               then nearestScan editor findPosition reverse findPositionContainedWithin rest
               else Some rng))"

text \<open>
  \<^verbatim>\<open>getNearestCommentingRange\<close>: after the loop the source reads
  \<^verbatim>\<open>decorations[0].getActiveRange()\<close>; on an empty array \<^verbatim>\<open>decorations[0]\<close> is
  \<^verbatim>\<open>undefined\<close> and the call raises a \<^verbatim>\<open>TypeError\<close>.
\<close>

definition getNearestCommentingRange ::
  "CommentingRangeDecorator \<Rightarrow> ICodeEditor \<Rightarrow> Position \<Rightarrow> bool \<Rightarrow> error + IRange option" where
  "getNearestCommentingRange this editor findPosition reverse =
     (let decorations =
            (if reverse then rev (commentingRangeDecorations this)
             else commentingRangeDecorations this)
      in case nearestScan editor findPosition reverse None decorations of
           Some rng \<Rightarrow> Inr (Some rng)
         | None \<Rightarrow>
             (case decorations of
                [] \<Rightarrow> Inl TypeError
              | first # _ \<Rightarrow> Inr (getActiveRange editor first)))"

section \<open>The comment controller\<close>

text \<open>
  The draft caches are plain JavaScript objects used as dictionaries, so what the controller
  reads from one under a thread id is not always what it stored there: an object made by
  \<^verbatim>\<open>{}\<close> inherits the members of \<^verbatim>\<open>Object.prototype\<close>, and a read of a property the
  object does not own yields the inherited member. \<open>PrototypeMember n\<close> is the member
  \<open>n\<close> of \<^verbatim>\<open>Object.prototype\<close> (for \<^verbatim>\<open>__proto__\<close> the prototype object itself, for the
  other names a function); the names are those of the engine the editor runs on.
  \<^verbatim>\<open>Object.prototype\<close> is taken to be as the engine makes it.
\<close>

definition objectPrototypeNames :: "string list" where
  "objectPrototypeNames =
     [''constructor'', ''__defineGetter__'', ''__defineSetter__'', ''hasOwnProperty'',
      ''__lookupGetter__'', ''__lookupSetter__'', ''isPrototypeOf'', ''propertyIsEnumerable'',
      ''toString'', ''valueOf'', ''__proto__'', ''toLocaleString'']"

text \<open>
  The edits of a thread are an object from property name (the unique id of a comment, as a
  decimal string) to text, listed as pairs.
\<close>

type_synonym Edits = "(string \<times> string) list"

datatype CacheValue = StringValue string | EditsValue Edits | PrototypeMember string

text \<open>JavaScript's truthiness of what a cache read yields (\<open>None\<close> is \<^verbatim>\<open>undefined\<close>).\<close>

definition truthy :: "CacheValue option \<Rightarrow> bool" where
  "truthy v =
     (case v of
        None \<Rightarrow> False
      | Some (StringValue s) \<Rightarrow> s \<noteq> []
      | Some (EditsValue es) \<Rightarrow> True
      | Some (PrototypeMember n) \<Rightarrow> True)"

text \<open>
  Modelled from the spec: the thread widget \<^verbatim>\<open>ReviewZoneWidget\<close>
  (\<^verbatim>\<open>commentThreadZoneWidget.ts\<close>) is not among the source files. The spec describes it
  as a widget made from an owner, a thread, an initial draft text and initial edit drafts,
  exposing \<^verbatim>\<open>update(thread)\<close>, \<^verbatim>\<open>getPendingComments() -> {newComment, edits}\<close>,
  \<^verbatim>\<open>collapse()/expand()\<close> and the glyph line. \<open>zone_pendingComment\<close> and
  \<open>zone_pendingEdits\<close> are the two drafts the constructor was given, as the controller
  passed them. \<open>zone_newComment\<close> and \<open>zone_edits\<close> are the current result of
  \<^verbatim>\<open>getPendingComments()\<close>, a text or \<^verbatim>\<open>undefined\<close> and an edits object as its
  signature says, which the user's typing changes.
\<close>

record ReviewZoneWidget =
  zone_owner :: string
  zone_commentThread :: CommentThread
  zone_pendingComment :: "CacheValue option"
  zone_pendingEdits :: "CacheValue option"
  zone_newComment :: "string option"
  zone_edits :: Edits
  zone_glyphPosition :: int
  zone_expanded :: bool

text \<open>
  Modelled from the spec: the widget the factory makes shows the initial draft text and the
  initial edit drafts it is given (a draft that is no text, or edits that are no edits
  object, show as none); its glyph sits on the end line of the thread's range (line 0 for a
  thread without a range).
\<close>

definition new_ReviewZoneWidget ::
  "string \<Rightarrow> CommentThread \<Rightarrow> CacheValue option \<Rightarrow> CacheValue option \<Rightarrow> ReviewZoneWidget" where
  "new_ReviewZoneWidget own thread pendingComment pendingEdits =
     \<lparr>zone_owner = own, zone_commentThread = thread,
      zone_pendingComment = pendingComment, zone_pendingEdits = pendingEdits,
      zone_newComment = (case pendingComment of Some (StringValue s) \<Rightarrow> Some s | _ \<Rightarrow> None),
      zone_edits = (case pendingEdits of Some (EditsValue es) \<Rightarrow> es | _ \<Rightarrow> []),
      zone_glyphPosition = (case thread_range thread of None \<Rightarrow> 0 | Some r \<Rightarrow> endLineNumber r),
      zone_expanded = (collapsibleState thread = Some Expanded)\<rparr>"

text \<open>
  Modelled from the spec: \<^verbatim>\<open>update(thread)\<close> pushes the thread data into the widget in
  place and keeps the widget's drafts and expansion.
\<close>

definition zone_update :: "ReviewZoneWidget \<Rightarrow> CommentThread \<Rightarrow> ReviewZoneWidget" where
  "zone_update zone thread = zone\<lparr>zone_commentThread := thread\<rparr>"

text \<open>
  Modelled from the spec: the comment service (\<^verbatim>\<open>commentService.ts\<close>) is not among the
  source files. The model keeps the enabled flag, the registry of continue-on drafts, from
  which \<^verbatim>\<open>removeContinueOnComment\<close> takes the draft registered under the same owner,
  uri and range, and the list of the \<^verbatim>\<open>createCommentThreadTemplate\<close> calls received.
\<close>

record ICommentService =
  isCommentingEnabled :: bool
  continueOnComments :: "PendingCommentThread list"
  templatesRequested :: "(string \<times> string \<times> IRange option) list"

fun removeFirst :: "('a \<Rightarrow> bool) \<Rightarrow> 'a list \<Rightarrow> 'a list" where
  "removeFirst P [] = []"
| "removeFirst P (x # xs) = (if P x then xs else x # removeFirst P xs)"

fun updateFirst :: "('a \<Rightarrow> bool) \<Rightarrow> ('a \<Rightarrow> 'a) \<Rightarrow> 'a list \<Rightarrow> 'a list" where
  "updateFirst P f [] = []"
| "updateFirst P f (x # xs) = (if P x then f x # xs else x # updateFirst P f xs)"

definition removeContinueOnComment ::
  "ICommentService \<Rightarrow> string \<Rightarrow> string \<Rightarrow> IRange \<Rightarrow> PendingCommentThread option \<times> ICommentService" where
  "removeContinueOnComment service own uri rng =
     (let registered = (\<lambda>p. pending_owner p = own \<and> pending_uri p = uri
                             \<and> equalsRange (Some (pending_range p)) (Some rng))
      in (find registered (continueOnComments service),
          service\<lparr>continueOnComments := removeFirst registered (continueOnComments service)\<rparr>))"

definition createCommentThreadTemplate ::
  "ICommentService \<Rightarrow> string \<Rightarrow> string \<Rightarrow> IRange option \<Rightarrow> ICommentService" where
  "createCommentThreadTemplate service own uri rng =
     service\<lparr>templatesRequested := templatesRequested service @ [(own, uri, rng)]\<rparr>"

text \<open>
  The two draft caches are plain objects used as dictionaries: owner id to a store of the
  new-comment drafts by thread id, and owner id to a store of the edits by thread id. A
  thread id that is \<^verbatim>\<open>undefined\<close> is the property key \<^verbatim>\<open>"undefined"\<close>.
\<close>

definition propertyKey :: "string option \<Rightarrow> string" where
  "propertyKey k = (case k of None \<Rightarrow> ''undefined'' | Some s \<Rightarrow> s)"

text \<open>
  A store of new-comment drafts, by the properties it owns. Reading a key: the own property,
  else the inherited member of that name, else \<^verbatim>\<open>undefined\<close>. Assigning a text: the
  store gets an own property, except under \<^verbatim>\<open>__proto__\<close>, where the assignment runs the
  inherited setter, which ignores a value that is no object. \<^verbatim>\<open>delete\<close> removes an own
  property and nothing else.
\<close>

type_synonym DraftStore = "string \<rightharpoonup> string"

definition getDraft :: "DraftStore \<Rightarrow> string \<Rightarrow> CacheValue option" where
  "getDraft store k =
     (case store k of
        Some s \<Rightarrow> Some (StringValue s)
      | None \<Rightarrow> if k \<in> set objectPrototypeNames then Some (PrototypeMember k) else None)"

definition setDraft :: "DraftStore \<Rightarrow> string \<Rightarrow> string \<Rightarrow> DraftStore" where
  "setDraft store k s = (if k = ''__proto__'' then store else store(k \<mapsto> s))"

definition deleteDraft :: "DraftStore \<Rightarrow> string \<Rightarrow> DraftStore" where
  "deleteDraft store k = store(k := None)"

text \<open>
  A store of edits. Assigning an edits object under \<^verbatim>\<open>__proto__\<close> runs the inherited
  setter with an object, which makes that object the prototype of the store:
  \<open>edits_proto\<close> is the edits object last installed so (it inherits from
  \<^verbatim>\<open>Object.prototype\<close> in its turn). A read of a key the store does not own goes to that
  object first and to \<^verbatim>\<open>Object.prototype\<close> after it; under \<^verbatim>\<open>__proto__\<close> it yields
  the prototype of the store.
\<close>

record EditsStore =
  edits_own :: "string \<rightharpoonup> Edits"
  edits_proto :: "Edits option"

definition emptyEditsStore :: EditsStore where
  "emptyEditsStore = \<lparr>edits_own = Map.empty, edits_proto = None\<rparr>"

definition getEdits :: "EditsStore \<Rightarrow> string \<Rightarrow> CacheValue option" where
  "getEdits store k =
     (case edits_own store k of
        Some es \<Rightarrow> Some (EditsValue es)
      | None \<Rightarrow>
          if k = ''__proto__''
          then (case edits_proto store of
                  Some es \<Rightarrow> Some (EditsValue es)
                | None \<Rightarrow> Some (PrototypeMember k))
          else (case (case edits_proto store of None \<Rightarrow> None | Some es \<Rightarrow> map_of es k) of
                  Some s \<Rightarrow> Some (StringValue s)
                | None \<Rightarrow>
                    if k \<in> set objectPrototypeNames then Some (PrototypeMember k) else None))"

definition setEdits :: "EditsStore \<Rightarrow> string \<Rightarrow> Edits \<Rightarrow> EditsStore" where
  "setEdits store k es =
     (if k = ''__proto__'' then store\<lparr>edits_proto := Some es\<rparr>
      else store\<lparr>edits_own := (edits_own store)(k \<mapsto> es)\<rparr>)"

definition deleteEdits :: "EditsStore \<Rightarrow> string \<Rightarrow> EditsStore" where
  "deleteEdits store k = store\<lparr>edits_own := (edits_own store)(k := None)\<rparr>"

type_synonym IEditorMouseEvent = nat

text \<open>
  The state of the controller. \<open>editorAttached\<close> says whether \<^verbatim>\<open>this.editor\<close> is set;
  \<open>editorIsInlineOriginal\<close> is what \<^verbatim>\<open>isEditorInlineOriginal(this.editor)\<close> returns
  (it reads the configuration and the visible editors). \<open>contextMenusShown\<close> and
  \<open>quickPicksShown\<close> list the disambiguation requests handed to those two services.
  The width of the line decorations (\<^verbatim>\<open>tryUpdateReservedSpace\<close>), the comments panel
  (\<^verbatim>\<open>openCommentsView\<close>), the thread range decorator and the editor listeners are
  outside the model. The two caches are maps from owner id to store: an owner id that names
  a member of \<^verbatim>\<open>Object.prototype\<close> is outside the model too (for it the source finds the
  inherited member in place of a store and writes to that member), and the properties
  about the caches are stated for the other owner ids.
\<close>

record CommentController =
  editorAttached :: bool
  editorIsInlineOriginal :: bool
  commentService :: ICommentService
  commentWidgets :: "ReviewZoneWidget list"
  commentInfos :: "ICommentInfo list"
  commentingRangeDecorator :: CommentingRangeDecorator
  addInProgress :: bool
  emptyThreadsToAddQueue :: "(IRange option \<times> IEditorMouseEvent option) list"
  pendingNewCommentCache :: "string \<rightharpoonup> DraftStore"
  pendingEditsCache :: "string \<rightharpoonup> EditsStore"
  contextMenusShown :: "(CommentRangeAction list \<times> IRange) list"
  quickPicksShown :: "(CommentRangeAction list \<times> IRange option) list"

text \<open>
  \<^verbatim>\<open>editorURI\<close>, as the handlers compute it: the uri of the model when the editor is set
  and has a model.
\<close>

definition editorURI :: "CommentController \<Rightarrow> ICodeEditor \<Rightarrow> string option" where
  "editorURI this ed = (if editorAttached this \<and> hasModel ed then Some (modelUri ed) else None)"

text \<open>The body of the last comment of a thread, if the thread has comments.\<close>

definition lastCommentBody :: "CommentThread \<Rightarrow> string option" where
  "lastCommentBody thread =
     (case comments thread of
        None \<Rightarrow> None
      | Some cs \<Rightarrow> if cs = [] then None else Some (bodyText (body (last cs))))"

text \<open>The body of the loop of \<^verbatim>\<open>removeCommentWidgetsAndStoreCache\<close>, for one widget.\<close>

definition storeZoneCache :: "CommentController \<Rightarrow> ReviewZoneWidget \<Rightarrow> CommentController" where
  "storeZoneCache this zone =
     (let pendingNewComment = zone_newComment zone;
          providerNewCommentCacheStore = pendingNewCommentCache this (zone_owner zone);
          key = propertyKey (threadId (zone_commentThread zone));
          newCommentCache =
            (case pendingNewComment of
               Some text \<Rightarrow>
                 if text \<noteq> [] \<and> Some text \<noteq> lastCommentBody (zone_commentThread zone)
                 then (pendingNewCommentCache this)(zone_owner zone \<mapsto>
                         setDraft
                           (case providerNewCommentCacheStore of
                              None \<Rightarrow> Map.empty
                            | Some store \<Rightarrow> store) key text)
                 else (case providerNewCommentCacheStore of
                         None \<Rightarrow> pendingNewCommentCache this
                       | Some store \<Rightarrow>
                           (pendingNewCommentCache this)(zone_owner zone \<mapsto> deleteDraft store key))
             | None \<Rightarrow>
                 (case providerNewCommentCacheStore of
                    None \<Rightarrow> pendingNewCommentCache this
                  | Some store \<Rightarrow>
                      (pendingNewCommentCache this)(zone_owner zone \<mapsto> deleteDraft store key)));
          pendingEdits = zone_edits zone;
          providerEditsCacheStore = pendingEditsCache this (zone_owner zone);
          editsCache =
            (if pendingEdits \<noteq> []
             then (pendingEditsCache this)(zone_owner zone \<mapsto>
                     setEdits
                       (case providerEditsCacheStore of
                          None \<Rightarrow> emptyEditsStore
                        | Some store \<Rightarrow> store) key pendingEdits)
             else (case providerEditsCacheStore of
                     None \<Rightarrow> pendingEditsCache this
                   | Some store \<Rightarrow>
                       (pendingEditsCache this)(zone_owner zone \<mapsto> deleteEdits store key)))
      in this\<lparr>pendingNewCommentCache := newCommentCache, pendingEditsCache := editsCache\<rparr>)"

definition removeCommentWidgetsAndStoreCache :: "CommentController \<Rightarrow> CommentController" where
  "removeCommentWidgetsAndStoreCache this =
     (foldl storeZoneCache this (commentWidgets this))\<lparr>commentWidgets := []\<rparr>"

definition displayCommentThread ::
  "ICodeEditor \<Rightarrow> CommentController \<Rightarrow> string \<Rightarrow> CommentThread \<Rightarrow> CacheValue option \<Rightarrow>
   CacheValue option \<Rightarrow> CommentController" where
  "displayCommentThread ed this own thread pendingComment pendingEdits =
     (if \<not> (editorAttached this \<and> hasModel ed) then this
      else if editorIsInlineOriginal this then this
      else this\<lparr>commentWidgets :=
             commentWidgets this @ [new_ReviewZoneWidget own thread pendingComment pendingEdits]\<rparr>)"

text \<open>
  \<^verbatim>\<open>setComments\<close>, the inner loop over the threads of one provider: every thread is
  displayed with what the provider's two stores yield under its id; a thread for which
  either is truthy is expanded. The result lists the threads as the loop leaves them.
\<close>

fun displayInfoThreads ::
  "ICodeEditor \<Rightarrow> string \<Rightarrow> DraftStore option \<Rightarrow> EditsStore option \<Rightarrow> CommentThread list \<Rightarrow>
   CommentController \<Rightarrow> CommentThread list \<times> CommentController" where
  "displayInfoThreads ed own providerCacheStore providerEditsCacheStore [] this = ([], this)"
| "displayInfoThreads ed own providerCacheStore providerEditsCacheStore (thread # rest) this =
     (let pendingComment =
            (case providerCacheStore of
               None \<Rightarrow> None
             | Some store \<Rightarrow> getDraft store (propertyKey (threadId thread)));
          pendingEdits =
            (case providerEditsCacheStore of
               None \<Rightarrow> None
             | Some store \<Rightarrow> getEdits store (propertyKey (threadId thread)));
          thread' =
            (if truthy pendingComment \<or> truthy pendingEdits
             then thread\<lparr>collapsibleState := Some Expanded\<rparr>
             else thread);
          this' = displayCommentThread ed this own thread' pendingComment pendingEdits;
          (rest', this'') =
            displayInfoThreads ed own providerCacheStore providerEditsCacheStore rest this'
      in (thread' # rest', this''))"

fun displayInfos ::
  "ICodeEditor \<Rightarrow> ICommentInfo list \<Rightarrow> CommentController \<Rightarrow> ICommentInfo list \<times> CommentController" where
  "displayInfos ed [] this = ([], this)"
| "displayInfos ed (info # rest) this =
     (let (threads', this1) =
            displayInfoThreads ed (owner info)
              (pendingNewCommentCache this (owner info)) (pendingEditsCache this (owner info))
              (filter (\<lambda>thread. \<not> isDisposed thread) (threads info)) this;
          this2 = this1\<lparr>commentService :=
                    foldl (\<lambda>service thread.
                             createCommentThreadTemplate service (pending_owner thread)
                               (pending_uri thread) (Some (pending_range thread)))
                      (commentService this1)
                      (case pendingCommentThreads info of None \<Rightarrow> [] | Some ps \<Rightarrow> ps)\<rparr>;
          (rest', this3) = displayInfos ed rest this2
      in (info\<lparr>threads := threads'\<rparr> # rest', this3))"

definition setComments ::
  "ICodeEditor \<Rightarrow> CommentController \<Rightarrow> ICommentInfo list \<Rightarrow> CommentController" where
  "setComments ed this newInfos =
     (if \<not> editorAttached this \<or> \<not> isCommentingEnabled (commentService this) then this
      else
        let this1 = removeCommentWidgetsAndStoreCache (this\<lparr>commentInfos := newInfos\<rparr>);
            (infos', this2) = displayInfos ed (commentInfos this1) this1;
            (decorator, fired) = update (commentingRangeDecorator this2) (Some ed) infos' None None
        in this2\<lparr>commentInfos := infos', commentingRangeDecorator := decorator\<rparr>)"

subsection \<open>Thread updates\<close>

record CommentThreadChangedEvent =
  ev_owner :: string
  added :: "CommentThread list"
  removed :: "CommentThread list"
  changed :: "CommentThread list"
  pending :: "PendingCommentThread list"

text \<open>The four loops of the \<^verbatim>\<open>onDidUpdateCommentThreads\<close> handler, one body each.\<close>

definition removeThread :: "string \<Rightarrow> CommentController \<Rightarrow> CommentThread \<Rightarrow> CommentController" where
  "removeThread evOwner this thread =
     this\<lparr>commentWidgets :=
            removeFirst (\<lambda>zoneWidget. zone_owner zoneWidget = evOwner
                           \<and> threadId (zone_commentThread zoneWidget) = threadId thread
                           \<and> threadId (zone_commentThread zoneWidget) \<noteq> Some [])
              (commentWidgets this),
          commentInfos :=
            updateFirst (\<lambda>info. owner info = evOwner)
              (\<lambda>info. info\<lparr>threads :=
                   filter (\<lambda>t. thread_address t \<noteq> thread_address thread) (threads info)\<rparr>)
              (commentInfos this)\<rparr>"

definition changeThread :: "string \<Rightarrow> CommentController \<Rightarrow> CommentThread \<Rightarrow> CommentController" where
  "changeThread evOwner this thread =
     this\<lparr>commentWidgets :=
            updateFirst (\<lambda>zoneWidget. zone_owner zoneWidget = evOwner
                           \<and> threadId (zone_commentThread zoneWidget) = threadId thread)
              (\<lambda>zoneWidget. zone_update zoneWidget thread)
              (commentWidgets this)\<rparr>"

definition addThread ::
  "ICodeEditor \<Rightarrow> string \<Rightarrow> string \<Rightarrow> CommentController \<Rightarrow> CommentThread \<Rightarrow> CommentController" where
  "addThread ed evOwner uri this thread =
     (if filter (\<lambda>zoneWidget. zone_owner zoneWidget = evOwner
                   \<and> threadId (zone_commentThread zoneWidget) = threadId thread)
           (commentWidgets this) \<noteq> []
      then this
      else
        let isNewCommentThreadZone =
              (\<lambda>zoneWidget. zone_owner zoneWidget = evOwner
                 \<and> commentThreadHandle (zone_commentThread zoneWidget) = - 1
                 \<and> equalsRange (thread_range (zone_commentThread zoneWidget)) (thread_range thread))
        in if filter isNewCommentThreadZone (commentWidgets this) \<noteq> []
           then this\<lparr>commentWidgets :=
                  updateFirst isNewCommentThreadZone (\<lambda>zoneWidget. zone_update zoneWidget thread)
                    (commentWidgets this)\<rparr>
           else
             let (continueOnComment, service) =
                   (case thread_range thread of
                      None \<Rightarrow> (None, commentService this)
                    | Some r \<Rightarrow> removeContinueOnComment (commentService this) evOwner uri r);
                 continueOnCommentText =
                   map_option (\<lambda>p. StringValue (pending_body p)) continueOnComment;
                 pendingCommentText =
                   (case (case pendingNewCommentCache this evOwner of
                            None \<Rightarrow> None
                          | Some store \<Rightarrow> getDraft store (propertyKey (threadId thread))) of
                      Some v \<Rightarrow> Some v
                    | None \<Rightarrow> continueOnCommentText);
                 pendingEdits =
                   (case pendingEditsCache this evOwner of
                      None \<Rightarrow> None
                    | Some store \<Rightarrow> getEdits store (propertyKey (threadId thread)));
                 this1 = displayCommentThread ed (this\<lparr>commentService := service\<rparr>) evOwner thread
                           pendingCommentText pendingEdits
             in this1\<lparr>commentInfos :=
                  updateFirst (\<lambda>info. owner info = evOwner)
                    (\<lambda>info. info\<lparr>threads := threads info @ [thread]\<rparr>)
                    (commentInfos this1)\<rparr>)"

definition createPendingThread :: "CommentController \<Rightarrow> PendingCommentThread \<Rightarrow> CommentController" where
  "createPendingThread this thread =
     this\<lparr>commentService :=
            createCommentThreadTemplate (commentService this) (pending_owner thread)
              (pending_uri thread) (Some (pending_range thread))\<rparr>"

definition removedPhase :: "string \<Rightarrow> CommentThread list \<Rightarrow> CommentController \<Rightarrow> CommentController" where
  "removedPhase evOwner ts this = foldl (removeThread evOwner) this ts"

definition changedPhase :: "string \<Rightarrow> CommentThread list \<Rightarrow> CommentController \<Rightarrow> CommentController" where
  "changedPhase evOwner ts this = foldl (changeThread evOwner) this ts"

definition addedPhase ::
  "ICodeEditor \<Rightarrow> string \<Rightarrow> string \<Rightarrow> CommentThread list \<Rightarrow> CommentController \<Rightarrow> CommentController" where
  "addedPhase ed evOwner uri ts this = foldl (addThread ed evOwner uri) this ts"

definition pendingPhase :: "PendingCommentThread list \<Rightarrow> CommentController \<Rightarrow> CommentController" where
  "pendingPhase ps this = foldl createPendingThread this ps"

text \<open>A thread of the event counts when its resource is set and is the editor's uri.\<close>

definition onThisResource :: "string \<Rightarrow> CommentThread \<Rightarrow> bool" where
  "onThisResource uri thread =
     (case resource thread of None \<Rightarrow> False | Some r \<Rightarrow> r \<noteq> [] \<and> r = uri)"

text \<open>
  The handler of \<^verbatim>\<open>onDidUpdateCommentThreads\<close>. The handler is asynchronous: it waits
  for a computation of the comments in flight before it reads the state; the model is the
  handler from that point on, with the state as it is then.
\<close>

definition onDidUpdateCommentThreads ::
  "ICodeEditor \<Rightarrow> CommentController \<Rightarrow> CommentThreadChangedEvent \<Rightarrow> CommentController" where
  "onDidUpdateCommentThreads ed this e =
     (case editorURI this ed of
        None \<Rightarrow> this
      | Some uri \<Rightarrow>
          if \<not> isCommentingEnabled (commentService this) then this
          else if filter (\<lambda>info. owner info = ev_owner e) (commentInfos this) = [] then this
          else
            let added' = filter (onThisResource uri) (added e);
                removed' = filter (onThisResource uri) (removed e);
                changed' = filter (onThisResource uri) (changed e);
                pending' = filter (\<lambda>p. pending_uri p = uri) (pending e);
                this1 = removedPhase (ev_owner e) removed' this;
                this2 = changedPhase (ev_owner e) changed' this1;
                this3 = addedPhase ed (ev_owner e) uri added' this2
            in pendingPhase pending' this3)"

subsection \<open>Adding a comment at a line\<close>

text \<open>
  \<^verbatim>\<open>addOrToggleCommentAtLine\<close>, \<^verbatim>\<open>processNextThreadToAdd\<close>, \<^verbatim>\<open>addCommentAtLine\<close>
  and \<^verbatim>\<open>addCommentAtLine2\<close> call one another; every round takes one request off the
  queue. \<^verbatim>\<open>addCommentAtLine\<close> is not an \<^verbatim>\<open>async\<close> function: its \<^verbatim>\<open>throw\<close>
  reaches the caller at once, and the result is the error or the resolved promise, with the
  state the call leaves. \<^verbatim>\<open>addOrToggleCommentAtLine\<close> is \<^verbatim>\<open>async\<close>: an error raised
  inside it rejects its promise and goes no further, so only the state is kept. The context
  menu and the quick pick answer later, through \<^verbatim>\<open>addCommentAtLine2\<close>.
\<close>

function addOrToggleCommentAtLine ::
    "ICodeEditor \<Rightarrow> CommentController \<Rightarrow> IRange option \<Rightarrow> IEditorMouseEvent option \<Rightarrow>
     CommentController"
  and processNextThreadToAdd :: "ICodeEditor \<Rightarrow> CommentController \<Rightarrow> CommentController"
  and addCommentAtLine ::
    "ICodeEditor \<Rightarrow> CommentController \<Rightarrow> IRange option \<Rightarrow> IEditorMouseEvent option \<Rightarrow>
     (error + unit) \<times> CommentController"
  and addCommentAtLine2 ::
    "ICodeEditor \<Rightarrow> CommentController \<Rightarrow> IRange option \<Rightarrow> string \<Rightarrow> CommentController"
where
  "addOrToggleCommentAtLine ed this commentRange e =
     (if \<not> addInProgress this
      then
        (let atLine = (\<lambda>widget. zone_glyphPosition widget =
                         (case commentRange of None \<Rightarrow> 0 | Some r \<Rightarrow> endLineNumber r));
             existingCommentsAtLine = filter atLine (commentWidgets this)
         in if existingCommentsAtLine \<noteq> []
            then processNextThreadToAdd ed
                   (this\<lparr>addInProgress := True,
                         commentWidgets :=
                           map (\<lambda>widget. if atLine widget
                                  then widget\<lparr>zone_expanded :=
                                         \<not> list_all zone_expanded existingCommentsAtLine\<rparr>
                                  else widget)
                             (commentWidgets this)\<rparr>)
            else snd (addCommentAtLine ed (this\<lparr>addInProgress := True\<rparr>) commentRange e))
      else this\<lparr>emptyThreadsToAddQueue := emptyThreadsToAddQueue this @ [(commentRange, e)]\<rparr>)"
| "processNextThreadToAdd ed this =
     (case emptyThreadsToAddQueue this of
        [] \<Rightarrow> this\<lparr>addInProgress := False\<rparr>
      | info # rest \<Rightarrow>
          addOrToggleCommentAtLine ed
            (this\<lparr>addInProgress := False, emptyThreadsToAddQueue := rest\<rparr>) (fst info) (snd info))"
| "addCommentAtLine ed this rng e =
     (case getMatchedCommentAction (commentingRangeDecorator this) ed rng of
        [] \<Rightarrow> (Inl NoCommentingRangesError, this\<lparr>addInProgress := False\<rparr>)
      | first # others \<Rightarrow>
          if \<not> (editorAttached this \<and> hasModel ed)
          then (Inr (), this\<lparr>addInProgress := False\<rparr>)
          else if others \<noteq> []
          then (case (e, rng) of
                  (Some ev, Some r) \<Rightarrow>
                    (Inr (), this\<lparr>contextMenusShown :=
                               contextMenusShown this @ [(first # others, r)]\<rparr>)
                | _ \<Rightarrow>
                    (Inr (), this\<lparr>quickPicksShown :=
                               quickPicksShown this @ [(first # others, rng)]\<rparr>))
          else (Inr (), addCommentAtLine2 ed this rng (ownerId first)))"
| "addCommentAtLine2 ed this rng own =
     (if \<not> editorAttached this then this
      else processNextThreadToAdd ed
             (this\<lparr>commentService :=
                     createCommentThreadTemplate (commentService this) own (modelUri ed) rng\<rparr>))"
  by pat_completeness auto
termination
  apply (relation "measure (\<lambda>x. case x of
        Inl (Inl (ed, this, r, e)) \<Rightarrow> 4 * length (emptyThreadsToAddQueue this) + 3
      | Inl (Inr (ed, this)) \<Rightarrow> 4 * length (emptyThreadsToAddQueue this)
      | Inr (Inl (ed, this, r, e)) \<Rightarrow> 4 * length (emptyThreadsToAddQueue this) + 2
      | Inr (Inr (ed, this, r, own)) \<Rightarrow> 4 * length (emptyThreadsToAddQueue this) + 1)")
  apply auto
  done

declare addOrToggleCommentAtLine.simps [simp del] processNextThreadToAdd.simps [simp del]
  addCommentAtLine.simps [simp del] addCommentAtLine2.simps [simp del]

section \<open>Notions used to state the properties\<close>

text \<open>
  The selection meets the provider range on one line only, and the emphasis line is
  another line: the case in which \<^verbatim>\<open>_doUpdate\<close> takes its first branch with a one-line
  intersection.
\<close>

definition oneLineSelectionAwayFromEmphasis :: "int \<Rightarrow> IRange option \<Rightarrow> IRange \<Rightarrow> bool" where
  "oneLineSelectionAwayFromEmphasis emphasisLine selectionRange rng =
     (case selectionRange of
        None \<Rightarrow> False
      | Some s \<Rightarrow>
          (case intersectRanges
                  (Range_new (startLineNumber rng) (startColumn rng)
                     (endLineNumber rng) (endColumn rng)) s of
             None \<Rightarrow> False
           | Some isr \<Rightarrow>
               emphasisLine \<ge> 0 \<and> startLineNumber isr = endLineNumber isr
               \<and> emphasisLine \<noteq> startLineNumber isr))"

text \<open>No two decorations of the list share a line.\<close>

fun pairwiseDisjointLines :: "CommentingRangeDecoration list \<Rightarrow> bool" where
  "pairwiseDisjointLines [] = True"
| "pairwiseDisjointLines (d # ds) =
     ((\<forall>e \<in> set ds. decorationLines d \<inter> decorationLines e = {}) \<and> pairwiseDisjointLines ds)"

text \<open>
  The decorations tile the range \<open>R\<close> up to thread glyphs: they share no line, stay inside
  \<open>R\<close>, and a line of \<open>R\<close> they leave out is a line on which the editor reports a comment
  thread glyph; with no glyph anywhere they cover \<open>R\<close>.
\<close>

definition tilesUpToThreads ::
  "ICodeEditor \<Rightarrow> IRange \<Rightarrow> CommentingRangeDecoration list \<Rightarrow> bool" where
  "tilesUpToThreads editor R ds \<longleftrightarrow>
     pairwiseDisjointLines ds
     \<and> \<Union> (decorationLines ` set ds) \<subseteq> rangeLines R
     \<and> (\<forall>l \<in> rangeLines R - \<Union> (decorationLines ` set ds).
           \<exists>r. startLineNumber r = l \<and> endLineNumber r = l \<and> lineHasThread editor r)
     \<and> ((\<forall>r. \<not> lineHasThread editor r) \<longrightarrow> \<Union> (decorationLines ` set ds) = rangeLines R)"

section \<open>Example data\<close>

text \<open>
  An editor without comment threads, and one with a thread glyph on line 2 that answers
  \<^verbatim>\<open>getDecorationsInRange\<close> by line.
\<close>

definition plainEditor :: ICodeEditor where
  "plainEditor =
     \<lparr>hasModel = True, modelUri = ''file:///a.ts'',
      getDecorationsInRange = (\<lambda>r. Some []),
      getDecorationRange = (\<lambda>i. None),
      deltaDecorations = (\<lambda>old new. [])\<rparr>"

definition glyphEditor :: ICodeEditor where
  "glyphEditor =
     \<lparr>hasModel = True, modelUri = ''file:///a.ts'',
      getDecorationsInRange =
        (\<lambda>r. if startLineNumber r \<le> 2 \<and> 2 \<le> endLineNumber r
             then Some [CommentGlyphWidget_description] else Some []),
      getDecorationRange = (\<lambda>i. None),
      deltaDecorations = (\<lambda>old new. [])\<rparr>"

text \<open>
  An editor with a thread glyph on line 2 that answers \<^verbatim>\<open>getDecorationsInRange\<close> by
  position, as the text model of the editor does: the glyph decoration sits at line 2,
  column 1 (the glyph widget puts it at column 1 of its line), and it is in a range when
  that position is, from the start position of the range to its end position.
\<close>

definition positionEditor :: ICodeEditor where
  "positionEditor =
     \<lparr>hasModel = True, modelUri = ''file:///a.ts'',
      getDecorationsInRange =
        (\<lambda>r. if (startLineNumber r < 2 \<or> startLineNumber r = 2 \<and> startColumn r \<le> 1)
                \<and> (2 < endLineNumber r \<or> endLineNumber r = 2 \<and> 1 \<le> endColumn r)
             then Some [CommentGlyphWidget_description] else Some []),
      getDecorationRange = (\<lambda>i. None),
      deltaDecorations = (\<lambda>old new. [])\<rparr>"

definition lines :: "int \<Rightarrow> int \<Rightarrow> IRange" where
  "lines a b = \<lparr>startLineNumber = a, startColumn = 1, endLineNumber = b, endColumn = 1\<rparr>"

definition rangesInfo :: "nat \<Rightarrow> IRange list \<Rightarrow> CommentingRanges" where
  "rangesInfo a rs = \<lparr>cr_address = a, ranges = rs, fileComments = False\<rparr>"

definition providerInfo :: "string \<Rightarrow> CommentingRanges \<Rightarrow> ICommentInfo" where
  "providerInfo own cr =
     \<lparr>owner = own, info_extensionId = None, info_label = None, commentingRanges = cr,
      threads = [], pendingCommentThreads = None\<rparr>"

text \<open>
  For the hit test: the current ranges of the claims of owner \<open>own\<close> that touch or
  intersect the hit range by line, in the order of the claims.
\<close>

definition touchingClaims ::
  "ICodeEditor \<Rightarrow> IRange \<Rightarrow> string \<Rightarrow> CommentingRangeDecoration list \<Rightarrow> IRange list" where
  "touchingClaims editor hitRange own decorations =
     List.map_filter
       (\<lambda>d. case getActiveRange editor d of
              None \<Rightarrow> None
            | Some r \<Rightarrow>
                if d_ownerId d = own \<and> areRangesIntersectingOrTouchingByLine r hitRange
                then Some r else None)
       decorations"

text \<open>
  The union of ranges, as the spec words the merge: the bounding union, from the smallest
  start line to the largest end line (\<open>None\<close> for no range at all).
\<close>

fun boundingUnion :: "IRange list \<Rightarrow> (int \<times> int) option" where
  "boundingUnion [] = None"
| "boundingUnion (r # rs) =
     (case boundingUnion rs of
        None \<Rightarrow> Some (startLineNumber r, endLineNumber r)
      | Some (s, e) \<Rightarrow> Some (min (startLineNumber r) s, max (endLineNumber r) e))"

definition unionContains :: "IRange list \<Rightarrow> IRange \<Rightarrow> bool" where
  "unionContains rs hitRange =
     (case boundingUnion rs of
        None \<Rightarrow> False
      | Some (s, e) \<Rightarrow> s \<le> startLineNumber hitRange \<and> endLineNumber hitRange \<le> e)"

text \<open>A claim touches the hit range when it has a current range that does.\<close>

definition claimTouches :: "ICodeEditor \<Rightarrow> IRange \<Rightarrow> CommentingRangeDecoration \<Rightarrow> bool" where
  "claimTouches editor hitRange d =
     (case getActiveRange editor d of
        None \<Rightarrow> False
      | Some r \<Rightarrow> areRangesIntersectingOrTouchingByLine r hitRange)"

text \<open>A claim of a provider whose decoration id is \<open>i\<close>.\<close>

definition claim :: "string \<Rightarrow> CommentingRanges \<Rightarrow> IRange \<Rightarrow> string \<Rightarrow> CommentingRangeDecoration" where
  "claim own cr r i =
     (newDecoration (providerInfo own cr) r decorationOptions False)\<lparr>decorationId := Some i\<rparr>"

definition decoratorWith :: "CommentingRangeDecoration list \<Rightarrow> CommentingRangeDecorator" where
  "decoratorWith ds =
     \<lparr>commentingRangeDecorations = ds, decorationIds = [], decorator_hasEditor = True,
      decorator_infos = None, lastHover = - 1, lastSelection = None,
      lastSelectionCursor = None\<rparr>"

text \<open>An editor in which the decoration \<open>a\<close> is on the first range and \<open>b\<close> on the second.\<close>

definition editorWith :: "IRange \<Rightarrow> IRange \<Rightarrow> ICodeEditor" where
  "editorWith ra rb =
     \<lparr>hasModel = True, modelUri = ''file:///a.ts'',
      getDecorationsInRange = (\<lambda>r. Some []),
      getDecorationRange = (\<lambda>i. if i = ''a'' then Some ra else if i = ''b'' then Some rb else None),
      deltaDecorations = (\<lambda>old new. [])\<rparr>"

text \<open>A controller with an attached editor, commenting enabled and nothing displayed.\<close>

definition emptyController :: CommentController where
  "emptyController =
     \<lparr>editorAttached = True, editorIsInlineOriginal = False,
      commentService = \<lparr>isCommentingEnabled = True, continueOnComments = [], templatesRequested = []\<rparr>,
      commentWidgets = [], commentInfos = [],
      commentingRangeDecorator = decoratorWith [],
      addInProgress = True, emptyThreadsToAddQueue = [],
      pendingNewCommentCache = Map.empty, pendingEditsCache = Map.empty,
      contextMenusShown = [], quickPicksShown = []\<rparr>"

text \<open>
  For the draft cache: the new-comment draft stored under an owner and a thread id (the own
  property of the owner's store); what a read of the cache under an owner and a thread id
  yields; whether a widget holds a draft worth keeping (its new-comment text is not empty
  and is not the body of the thread's last comment); the owner and property key a widget
  writes under.
\<close>

definition cachedNewComment :: "CommentController \<Rightarrow> string \<Rightarrow> string option \<Rightarrow> string option" where
  "cachedNewComment this own tid =
     (case pendingNewCommentCache this own of
        None \<Rightarrow> None
      | Some store \<Rightarrow> store (propertyKey tid))"

definition readNewCommentCache ::
  "CommentController \<Rightarrow> string \<Rightarrow> string option \<Rightarrow> CacheValue option" where
  "readNewCommentCache this own tid =
     (case pendingNewCommentCache this own of
        None \<Rightarrow> None
      | Some store \<Rightarrow> getDraft store (propertyKey tid))"

definition draftPending :: "ReviewZoneWidget \<Rightarrow> bool" where
  "draftPending zone =
     (case zone_newComment zone of
        None \<Rightarrow> False
      | Some text \<Rightarrow> text \<noteq> [] \<and> Some text \<noteq> lastCommentBody (zone_commentThread zone))"

definition zoneKey :: "ReviewZoneWidget \<Rightarrow> string \<times> string" where
  "zoneKey zone = (zone_owner zone, propertyKey (threadId (zone_commentThread zone)))"

text \<open>A property name that names no member of \<^verbatim>\<open>Object.prototype\<close>.\<close>

definition plainPropertyName :: "string \<Rightarrow> bool" where
  "plainPropertyName k \<longleftrightarrow> k \<notin> set objectPrototypeNames"

text \<open>A thread with one submitted comment, and a widget of it with a new-comment text.\<close>

definition threadWith :: "string \<Rightarrow> string \<Rightarrow> CommentThread" where
  "threadWith tid text =
     \<lparr>thread_address = 1, commentThreadHandle = 1, threadId = Some tid,
      resource = Some ''file:///a.ts'', thread_range = Some (lines 3 3),
      comments = Some [\<lparr>uniqueIdInThread = 1, body = StringBody text\<rparr>],
      collapsibleState = None, thread_state = None, isDisposed = False\<rparr>"

definition widgetWith :: "string \<Rightarrow> CommentThread \<Rightarrow> string option \<Rightarrow> ReviewZoneWidget" where
  "widgetWith own thread text = new_ReviewZoneWidget own thread (map_option StringValue text) None"

text \<open>
  A controller that shows one thread of provider \<open>O\<close>, and the batch that removes that
  thread and adds another one.
\<close>

definition controllerShowing :: "CommentThread \<Rightarrow> CommentController" where
  "controllerShowing thread =
     emptyController\<lparr>commentInfos := [(providerInfo ''O'' (rangesInfo 0 []))\<lparr>threads := [thread]\<rparr>],
                     commentWidgets := [widgetWith ''O'' thread None]\<rparr>"

definition replaceBatch :: "CommentThread \<Rightarrow> CommentThread \<Rightarrow> CommentThreadChangedEvent" where
  "replaceBatch old new =
     \<lparr>ev_owner = ''O'', added = [new], removed = [old], changed = [], pending = []\<rparr>"

section \<open>Verified properties\<close>

section \<open>Ranges: line arithmetic\<close>

lemma Range_new_startLine:
  "startLineNumber (Range_new sl sc el ec) = min sl el"
  by (auto simp: Range_new_def)

lemma Range_new_endLine:
  "endLineNumber (Range_new sl sc el ec) = max sl el"
  by (auto simp: Range_new_def)

lemma newDecoration_lines:
  "decorationLines (newDecoration info r opts hov) = {startLineNumber r .. endLineNumber r}"
  by (simp add: decorationLines_def newDecoration_def new_CommentingRangeDecoration_def
      decoration_range_def rangeLines_def)

lemma intersectRanges_lines:
  assumes "intersectRanges a b = Some i"
  shows "startLineNumber i = max (startLineNumber a) (startLineNumber b)
       \<and> endLineNumber i = min (endLineNumber a) (endLineNumber b)
       \<and> startLineNumber i \<le> endLineNumber i"
  using assms
  by (auto simp: intersectRanges_def Let_def Range_new_startLine Range_new_endLine
      split: if_splits prod.splits)

lemma emphasisSplit_tiles:
  assumes "startLineNumber R \<le> e" "e \<le> endLineNumber R"
     "startLineNumber ro = startLineNumber R" "endLineNumber ro = endLineNumber R"
  shows "pairwiseDisjointLines (emphasisSplit editor info e ro R)"
    and "\<Union> (decorationLines ` set (emphasisSplit editor info e ro R)) =
         rangeLines R - (if lineHasThread editor (Range_new e 1 e 1) then {e} else {})"
  using assms
  by (auto simp: emphasisSplit_def newDecoration_lines Range_new_startLine Range_new_endLine rangeLines_def)


lemma collapseToStart_lines:
  "startLineNumber (collapseToStart r) = startLineNumber r"
  "endLineNumber (collapseToStart r) = startLineNumber r"
  by (simp_all add: collapseToStart_def Range_new_startLine Range_new_endLine)

lemma tilesUpToThreadsI:
  assumes "pairwiseDisjointLines ds"
    and "\<Union> (decorationLines ` set ds) = rangeLines R - (if lineHasThread editor r then {l} else {})"
    and "startLineNumber r = l" "endLineNumber r = l"
  shows "tilesUpToThreads editor R ds"
proof -
  have "\<exists>r'. startLineNumber r' = l' \<and> endLineNumber r' = l' \<and> lineHasThread editor r'"
    if "l' \<in> rangeLines R - \<Union> (decorationLines ` set ds)" for l'
  proof -
    from that assms(2) have "lineHasThread editor r \<and> l' = l"
      by (auto split: if_splits)
    with assms(3,4) show ?thesis by blast
  qed
  moreover have "\<Union> (decorationLines ` set ds) \<subseteq> rangeLines R"
    using assms(2) by blast
  moreover have "(\<forall>r. \<not> lineHasThread editor r) \<longrightarrow> \<Union> (decorationLines ` set ds) = rangeLines R"
    using assms(2) by simp
  ultimately show ?thesis
    unfolding tilesUpToThreads_def using assms(1) by blast
qed

lemma selectionSplit_tiles:
  assumes "startLineNumber R \<le> startLineNumber isr" "startLineNumber isr < endLineNumber isr"
    "endLineNumber isr \<le> endLineNumber R"
    "startLineNumber ro = startLineNumber R" "endLineNumber ro = endLineNumber R"
  shows "tilesUpToThreads editor R (selectionSplit editor info e ro R isr)"
proof (cases "e \<le> startLineNumber isr")
  case True
  let ?emph = "collapseToStart isr"
  have ds: "selectionSplit editor info e ro R isr =
      [newDecoration info (Range_new (startLineNumber isr + 1) 1 (endLineNumber isr) 1) multilineDecorationOptions True]
      @ (if \<not> lineHasThread editor ?emph then [newDecoration info ?emph hoverDecorationOptions True] else [])
      @ (if startLineNumber R \<le> startLineNumber isr - 1
         then [newDecoration info (Range_new (startLineNumber R) 1 (startLineNumber isr - 1) 1) decorationOptions True] else [])
      @ (if endLineNumber R \<ge> endLineNumber isr + 1
         then [newDecoration info (Range_new (endLineNumber isr + 1) 1 (endLineNumber R) 1) decorationOptions True] else [])"
    using True assms
    by (simp add: selectionSplit_def Let_def collapseToStart_lines Range_new_startLine Range_new_endLine)
  show ?thesis
  proof (rule tilesUpToThreadsI [where r = ?emph and l = "startLineNumber isr"])
    show "pairwiseDisjointLines (selectionSplit editor info e ro R isr)"
      unfolding ds using assms
      by (auto simp: newDecoration_lines Range_new_startLine Range_new_endLine collapseToStart_lines)
    show "\<Union> (decorationLines ` set (selectionSplit editor info e ro R isr)) =
        rangeLines R - (if lineHasThread editor ?emph then {startLineNumber isr} else {})"
      unfolding ds using assms
      by (auto simp: newDecoration_lines Range_new_startLine Range_new_endLine rangeLines_def collapseToStart_lines)
  qed (simp_all add: collapseToStart_lines)
next
  case False
  let ?emph = "Range_new (endLineNumber isr) 1 (endLineNumber isr) 1"
  have ds: "selectionSplit editor info e ro R isr =
      [newDecoration info (Range_new (startLineNumber isr) 1 (endLineNumber isr - 1) 1) multilineDecorationOptions True]
      @ (if \<not> lineHasThread editor ?emph then [newDecoration info ?emph hoverDecorationOptions True] else [])
      @ (if startLineNumber R \<le> startLineNumber isr - 1
         then [newDecoration info (Range_new (startLineNumber R) 1 (startLineNumber isr - 1) 1) decorationOptions True] else [])
      @ (if endLineNumber R \<ge> endLineNumber isr + 1
         then [newDecoration info (Range_new (endLineNumber isr + 1) 1 (endLineNumber R) 1) decorationOptions True] else [])"
    using False assms
    by (simp add: selectionSplit_def Let_def Range_new_startLine Range_new_endLine)
  show ?thesis
  proof (rule tilesUpToThreadsI [where r = ?emph and l = "endLineNumber isr"])
    show "pairwiseDisjointLines (selectionSplit editor info e ro R isr)"
      unfolding ds using assms
      by (auto simp: newDecoration_lines Range_new_startLine Range_new_endLine)
    show "\<Union> (decorationLines ` set (selectionSplit editor info e ro R isr)) =
        rangeLines R - (if lineHasThread editor ?emph then {endLineNumber isr} else {})"
      unfolding ds using assms
      by (auto simp: newDecoration_lines Range_new_startLine Range_new_endLine rangeLines_def)
  qed (simp_all add: Range_new_startLine Range_new_endLine)
qed

lemma emphasisSplit_tilesUpToThreads:
  assumes "startLineNumber R \<le> e" "e \<le> endLineNumber R"
     "startLineNumber ro = startLineNumber R" "endLineNumber ro = endLineNumber R"
  shows "tilesUpToThreads editor R (emphasisSplit editor info e ro R)"
  by (rule tilesUpToThreadsI [where r = "Range_new e 1 e 1" and l = e])
     (use assms emphasisSplit_tiles [OF assms] in \<open>simp_all add: Range_new_startLine Range_new_endLine\<close>)

lemma plain_tilesUpToThreads:
  assumes "startLineNumber R \<le> endLineNumber R"
  shows "tilesUpToThreads editor R [newDecoration info R decorationOptions False]"
  by (simp add: tilesUpToThreads_def newDecoration_lines rangeLines_def)

lemma emitForRange_tilesUpToThreads:
  assumes wf: "startLineNumber R \<le> endLineNumber R"
    and sel: "\<not> oneLineSelectionAwayFromEmphasis emphasisLine selectionRange R"
  shows "tilesUpToThreads editor R (emitForRange editor info emphasisLine selectionRange R)"
proof -
  let ?ro = "Range_new (startLineNumber R) (startColumn R) (endLineNumber R) (endColumn R)"
  have ro: "startLineNumber ?ro = startLineNumber R" "endLineNumber ?ro = endLineNumber R"
    using wf by (simp_all add: Range_new_startLine Range_new_endLine)
  let ?otherwise = "if startLineNumber ?ro \<le> emphasisLine \<and> emphasisLine \<le> endLineNumber ?ro
             then emphasisSplit editor info emphasisLine ?ro R
             else [newDecoration info R decorationOptions False]"
  have other: "tilesUpToThreads editor R ?otherwise"
    using emphasisSplit_tilesUpToThreads [of R emphasisLine ?ro] plain_tilesUpToThreads [OF wf] ro
    by simp
  show ?thesis
  proof (cases selectionRange)
    case None
    then show ?thesis using other by (simp add: emitForRange_def Let_def)
  next
    case (Some s)
    show ?thesis
    proof (cases "intersectRanges ?ro s")
      case None
      then show ?thesis using other Some by (simp add: emitForRange_def Let_def)
    next
      case (Some isr)
      note isr = intersectRanges_lines [OF Some]
      show ?thesis
      proof (cases "emphasisLine \<ge> 0
                \<and> \<not> (startLineNumber isr = endLineNumber isr \<and> emphasisLine = startLineNumber isr)")
        case True
        with sel \<open>selectionRange = Some s\<close> Some have "startLineNumber isr < endLineNumber isr"
          using isr by (auto simp: oneLineSelectionAwayFromEmphasis_def)
        then have "tilesUpToThreads editor R (selectionSplit editor info emphasisLine ?ro R isr)"
          using isr ro by (intro selectionSplit_tiles) auto
        then show ?thesis
          using True Some \<open>selectionRange = Some s\<close> by (simp add: emitForRange_def Let_def)
      next
        case False
        then show ?thesis
          using other Some \<open>selectionRange = Some s\<close> by (auto simp add: emitForRange_def Let_def)
      qed
    qed
  qed
qed

text \<open>
  C1 (tiling exactness), as the code has it. For a provider range \<open>R\<close> whose start line is
  not after its end line, and unless the selection meets \<open>R\<close> on a single line that is not
  the emphasis line, the decorations \<^verbatim>\<open>_doUpdate\<close> emits for \<open>R\<close> share no line and stay
  inside \<open>R\<close>; every line of \<open>R\<close> they leave out is one on which the editor reports a
  comment thread glyph (the suppressed emphasis line), and with no glyph they cover \<open>R\<close>
  exactly. This holds in all three branches.
\<close>

theorem C1_emitForRange_tiling:
  assumes "startLineNumber R \<le> endLineNumber R"
    and "\<not> oneLineSelectionAwayFromEmphasis emphasisLine selectionRange R"
  shows "let ds = emitForRange editor info emphasisLine selectionRange R in
         pairwiseDisjointLines ds
         \<and> \<Union> (decorationLines ` set ds) \<subseteq> rangeLines R
         \<and> (\<forall>l \<in> rangeLines R - \<Union> (decorationLines ` set ds).
               \<exists>r. startLineNumber r = l \<and> endLineNumber r = l \<and> lineHasThread editor r)
         \<and> ((\<forall>r. \<not> lineHasThread editor r) \<longrightarrow> \<Union> (decorationLines ` set ds) = rangeLines R)"
  using emitForRange_tilesUpToThreads [OF assms, of editor info]
  unfolding tilesUpToThreads_def Let_def .

lemma plainEditor_no_thread: "\<not> lineHasThread plainEditor r"
  by (simp add: lineHasThread_def plainEditor_def)

theorem C1_emitForRange_tiling_witness:
  "pairwiseDisjointLines
     (emitForRange plainEditor (providerInfo ''O'' (rangesInfo 0 [lines 1 10])) 7
        (Some (Range_new 3 1 7 5)) (lines 1 10))
   \<and> \<Union> (decorationLines ` set
        (emitForRange plainEditor (providerInfo ''O'' (rangesInfo 0 [lines 1 10])) 7
           (Some (Range_new 3 1 7 5)) (lines 1 10))) = rangeLines (lines 1 10)"
proof -
  have wf: "startLineNumber (lines 1 10) \<le> endLineNumber (lines 1 10)"
    by (simp add: lines_def)
  have sel: "\<not> oneLineSelectionAwayFromEmphasis 7 (Some (Range_new 3 1 7 5)) (lines 1 10)"
    by (simp add: oneLineSelectionAwayFromEmphasis_def lines_def Range_new_def intersectRanges_def)
  show ?thesis
    using C1_emitForRange_tiling [OF wf sel, of plainEditor "providerInfo ''O'' (rangesInfo 0 [lines 1 10])"]
      plainEditor_no_thread
    by (simp add: Let_def)
qed

text \<open>
  The claim as stated fails where the emphasis line carries a thread glyph: for the range of
  lines 1 to 3 with the emphasis on line 2, the decorations are lines 1 and 3 only.
\<close>

theorem C1_tiling_counterexample:
  "\<not> (pairwiseDisjointLines
         (emitForRange glyphEditor (providerInfo ''O'' (rangesInfo 0 [lines 1 3])) 2 None (lines 1 3))
      \<and> \<Union> (decorationLines ` set
           (emitForRange glyphEditor (providerInfo ''O'' (rangesInfo 0 [lines 1 3])) 2 None (lines 1 3)))
        = rangeLines (lines 1 3))"
proof -
  have "emitForRange glyphEditor (providerInfo ''O'' (rangesInfo 0 [lines 1 3])) 2 None (lines 1 3) =
      [newDecoration (providerInfo ''O'' (rangesInfo 0 [lines 1 3])) (lines 1 1) decorationOptions True,
       newDecoration (providerInfo ''O'' (rangesInfo 0 [lines 1 3])) (lines 3 3) decorationOptions True]"
    by (simp add: emitForRange_def emphasisSplit_def lineHasThread_def glyphEditor_def
        Range_new_def lines_def Let_def)
  then have "\<Union> (decorationLines ` set
      (emitForRange glyphEditor (providerInfo ''O'' (rangesInfo 0 [lines 1 3])) 2 None (lines 1 3)))
      = {1, 3}"
    by (auto simp: newDecoration_lines lines_def)
  moreover have "(2::int) \<in> rangeLines (lines 1 3)"
    by (simp add: rangeLines_def lines_def)
  moreover have "(2::int) \<notin> {1, 3}"
    by simp
  ultimately show ?thesis
    by metis
qed

text \<open>
  Where the selection meets the range on one line and the emphasis is elsewhere, the first
  branch builds a range with its lines in reverse order, which the constructor turns around:
  the two emphasis decorations then overlap.
\<close>

lemma emitForRange_one_line_selection_overlaps:
  "\<not> pairwiseDisjointLines
       (emitForRange plainEditor (providerInfo ''O'' (rangesInfo 0 [lines 5 10])) 3
          (Some (Range_new 3 1 5 4)) (lines 5 10))"
proof -
  have "emitForRange plainEditor (providerInfo ''O'' (rangesInfo 0 [lines 5 10])) 3
          (Some (Range_new 3 1 5 4)) (lines 5 10) =
      [newDecoration (providerInfo ''O'' (rangesInfo 0 [lines 5 10])) (lines 5 6) multilineDecorationOptions True,
       newDecoration (providerInfo ''O'' (rangesInfo 0 [lines 5 10])) (lines 5 5) hoverDecorationOptions True,
       newDecoration (providerInfo ''O'' (rangesInfo 0 [lines 5 10])) (lines 7 10) decorationOptions True]"
    by (simp add: emitForRange_def selectionSplit_def lineHasThread_def plainEditor_def
        Range_new_def lines_def Let_def intersectRanges_def collapseToStart_def)
  then show ?thesis
    by (simp add: newDecoration_lines lines_def)
qed

section \<open>The decorations of one recompute\<close>

lemma emitForRange_newDecoration:
  assumes "d \<in> set (emitForRange editor info emphasisLine selectionRange R)"
  shows "\<exists>r opts hov. d = newDecoration info r opts hov"
  using assms
  by (auto simp: emitForRange_def selectionSplit_def emphasisSplit_def Let_def
      split: option.splits if_splits prod.splits)

lemma computeDecorations_newDecoration:
  assumes "d \<in> set (computeDecorations editor infos emphasisLine selectionRange)"
  shows "\<exists>info r opts hov. d = newDecoration info r opts hov"
  using assms emitForRange_newDecoration
  by (fastforce simp: computeDecorations_def)

lemma selectionSplit_hover:
  assumes "d \<in> set (selectionSplit editor info e ro R isr)"
    and "options d = hoverDecorationOptions"
  shows "\<not> lineHasThread editor (getOriginalRange d) \<and> d_startLineNumber d = d_endLineNumber d"
proof (cases "e \<le> startLineNumber isr")
  case True
  with assms show ?thesis
    by (auto simp: selectionSplit_def Let_def newDecoration_def new_CommentingRangeDecoration_def
        getOriginalRange_def collapseToStart_lines split: if_splits)
next
  case False
  with assms show ?thesis
    by (auto simp: selectionSplit_def Let_def newDecoration_def new_CommentingRangeDecoration_def
        getOriginalRange_def Range_new_startLine Range_new_endLine split: if_splits)
qed

lemma emphasisSplit_hover:
  assumes "d \<in> set (emphasisSplit editor info e ro R)"
    and "options d = hoverDecorationOptions"
  shows "\<not> lineHasThread editor (getOriginalRange d) \<and> d_startLineNumber d = d_endLineNumber d"
  using assms
  by (auto simp: emphasisSplit_def newDecoration_def new_CommentingRangeDecoration_def
      getOriginalRange_def Range_new_startLine Range_new_endLine split: if_splits)

lemma emitForRange_hover:
  assumes "d \<in> set (emitForRange editor info emphasisLine selectionRange R)"
    and "options d = hoverDecorationOptions"
  shows "\<not> lineHasThread editor (getOriginalRange d) \<and> d_startLineNumber d = d_endLineNumber d"
proof -
  let ?ro = "Range_new (startLineNumber R) (startColumn R) (endLineNumber R) (endColumn R)"
  from assms(1) consider
      (selection) isr where "d \<in> set (selectionSplit editor info emphasisLine ?ro R isr)"
    | (emphasis) "d \<in> set (emphasisSplit editor info emphasisLine ?ro R)"
    | (plain) "d = newDecoration info R decorationOptions False"
    by (auto simp: emitForRange_def Let_def split: option.splits if_splits)
  then show ?thesis
  proof cases
    case selection
    then show ?thesis using assms(2) by (rule selectionSplit_hover)
  next
    case emphasis
    then show ?thesis using assms(2) by (rule emphasisSplit_hover)
  next
    case plain
    with assms(2) show ?thesis
      by (simp add: newDecoration_def new_CommentingRangeDecoration_def)
  qed
qed

text \<open>
  In every recompute, a decoration emitted with the hover emphasis options is a one-line
  decoration, and \<^verbatim>\<open>_lineHasThread\<close> found no comment thread glyph in the range it was
  made for: in the selection branch and in the emphasis-line branch alike the emphasis
  decoration is left out when the query finds a glyph.
\<close>

lemma hover_only_where_query_finds_no_glyph:
  "\<forall>d \<in> set (computeDecorations editor infos emphasisLine selectionRange).
     options d = hoverDecorationOptions \<longrightarrow>
       \<not> lineHasThread editor (getOriginalRange d) \<and> d_startLineNumber d = d_endLineNumber d"
  using emitForRange_hover
  by (fastforce simp: computeDecorations_def)

lemma hover_only_where_query_finds_no_glyph_example:
  "newDecoration (providerInfo ''O'' (rangesInfo 0 [lines 1 3])) (lines 3 3) hoverDecorationOptions True
     \<in> set (computeDecorations glyphEditor [providerInfo ''O'' (rangesInfo 0 [lines 1 3])] 3 None)
   \<and> \<not> lineHasThread glyphEditor (lines 3 3)
   \<and> (\<nexists>d. d \<in> set (computeDecorations glyphEditor [providerInfo ''O'' (rangesInfo 0 [lines 1 3])] 2 None)
          \<and> options d = hoverDecorationOptions)"
proof -
  let ?info = "providerInfo ''O'' (rangesInfo 0 [lines 1 3])"
  have at3: "computeDecorations glyphEditor [?info] 3 None =
      [newDecoration ?info (lines 1 2) decorationOptions True,
       newDecoration ?info (lines 3 3) hoverDecorationOptions True]"
    by (simp add: computeDecorations_def providerInfo_def rangesInfo_def emitForRange_def
        emphasisSplit_def lineHasThread_def glyphEditor_def Range_new_def lines_def Let_def)
  have at2: "computeDecorations glyphEditor [?info] 2 None =
      [newDecoration ?info (lines 1 1) decorationOptions True,
       newDecoration ?info (lines 3 3) decorationOptions True]"
    by (simp add: computeDecorations_def providerInfo_def rangesInfo_def emitForRange_def
        emphasisSplit_def lineHasThread_def glyphEditor_def Range_new_def lines_def Let_def)
  have mem: "newDecoration ?info (lines 3 3) hoverDecorationOptions True
      \<in> set (computeDecorations glyphEditor [?info] 3 None)"
    by (simp add: at3)
  have "\<not> lineHasThread glyphEditor
           (getOriginalRange (newDecoration ?info (lines 3 3) hoverDecorationOptions True))"
    using hover_only_where_query_finds_no_glyph [of glyphEditor "[?info]" 3 None] mem
    by (simp add: newDecoration_def new_CommentingRangeDecoration_def)
  then have "\<not> lineHasThread glyphEditor (lines 3 3)"
    by (simp add: getOriginalRange_def newDecoration_def new_CommentingRangeDecoration_def)
  moreover have "\<nexists>d. d \<in> set (computeDecorations glyphEditor [?info] 2 None)
      \<and> options d = hoverDecorationOptions"
    by (auto simp: at2 newDecoration_def new_CommentingRangeDecoration_def)
  ultimately show ?thesis using mem by blast
qed

text \<open>
  C5 (mutual exclusion of glyphs). The recompute emits a hover emphasis decoration on a
  line that hosts a comment thread glyph. The provider's range is lines 1 to 10, the thread
  glyph sits at line 2, column 1, and the selection runs from line 2, column 5 to line 4,
  column 1 with the cursor on line 2. The selection branch asks \<^verbatim>\<open>_lineHasThread\<close> for the
  start of the selection, line 2 at column 5, where the editor finds no decoration; the
  hover emphasis decoration is then pushed, and the range it submits to the editor is
  line 2 from column 1, where the glyph is. (With the cursor on line 2 and no selection the
  second branch asks for line 2 at column 1 and leaves the decoration out.)
\<close>

theorem C5_hover_on_glyph_line:
  "computeDecorations positionEditor [providerInfo ''O'' (rangesInfo 0 [lines 1 10])] 2
       (Some (Range_new 2 5 4 1))
     = [newDecoration (providerInfo ''O'' (rangesInfo 0 [lines 1 10])) (lines 3 4)
          multilineDecorationOptions True,
        newDecoration (providerInfo ''O'' (rangesInfo 0 [lines 1 10])) (Range_new 2 5 2 5)
          hoverDecorationOptions True,
        newDecoration (providerInfo ''O'' (rangesInfo 0 [lines 1 10])) (lines 1 1)
          decorationOptions True,
        newDecoration (providerInfo ''O'' (rangesInfo 0 [lines 1 10])) (lines 5 10)
          decorationOptions True]
   \<and> decoration_range
       (newDecoration (providerInfo ''O'' (rangesInfo 0 [lines 1 10])) (Range_new 2 5 2 5)
          hoverDecorationOptions True) = lines 2 2
   \<and> lineHasThread positionEditor (lines 2 2)
   \<and> computeDecorations positionEditor [providerInfo ''O'' (rangesInfo 0 [lines 1 10])] 2 None
     = [newDecoration (providerInfo ''O'' (rangesInfo 0 [lines 1 10])) (lines 1 1)
          decorationOptions True,
        newDecoration (providerInfo ''O'' (rangesInfo 0 [lines 1 10])) (lines 3 10)
          decorationOptions True]"
proof -
  let ?info = "providerInfo ''O'' (rangesInfo 0 [lines 1 10])"
  have query: "lineHasThread positionEditor (lines 2 2)"
    "\<not> lineHasThread positionEditor (Range_new 2 5 2 5)"
    by (simp_all add: lineHasThread_def positionEditor_def lines_def Range_new_def)
  have isr: "intersectRanges (Range_new 1 1 10 1) (Range_new 2 5 4 1) = Some (Range_new 2 5 4 1)"
    by (simp add: intersectRanges_def Range_new_def Let_def)
  have selection: "computeDecorations positionEditor [?info] 2 (Some (Range_new 2 5 4 1))
      = [newDecoration ?info (lines 3 4) multilineDecorationOptions True,
         newDecoration ?info (Range_new 2 5 2 5) hoverDecorationOptions True,
         newDecoration ?info (lines 1 1) decorationOptions True,
         newDecoration ?info (lines 5 10) decorationOptions True]"
    by (simp add: computeDecorations_def providerInfo_def rangesInfo_def emitForRange_def
        selectionSplit_def lineHasThread_def positionEditor_def Range_new_def lines_def Let_def
        intersectRanges_def collapseToStart_def)
  have range: "decoration_range (newDecoration ?info (Range_new 2 5 2 5) hoverDecorationOptions True)
      = lines 2 2"
    by (simp add: decoration_range_def newDecoration_def new_CommentingRangeDecoration_def
        Range_new_def lines_def)
  have cursor: "computeDecorations positionEditor [?info] 2 None
      = [newDecoration ?info (lines 1 1) decorationOptions True,
         newDecoration ?info (lines 3 10) decorationOptions True]"
    by (simp add: computeDecorations_def providerInfo_def rangesInfo_def emitForRange_def
        emphasisSplit_def lineHasThread_def positionEditor_def Range_new_def lines_def Let_def)
  from selection range query(1) cursor show ?thesis
    by (intro conjI)
qed

text \<open>
  C10 (line granularity). The range a decoration submits to the editor has start column 1
  and end column 1 whatever columns the provider's range has, and for every decoration of a
  recompute its two lines are the start and end line of the range the decoration was made
  for.
\<close>

theorem C10_decoration_range_whole_lines:
  "startColumn (decoration_range d) = 1 \<and> endColumn (decoration_range d) = 1
   \<and> (d \<in> set (computeDecorations editor infos emphasisLine selectionRange) \<longrightarrow>
        startLineNumber (decoration_range d) = startLineNumber (getOriginalRange d)
        \<and> endLineNumber (decoration_range d) = endLineNumber (getOriginalRange d))"
proof -
  have "startLineNumber (decoration_range d) = startLineNumber (getOriginalRange d)
        \<and> endLineNumber (decoration_range d) = endLineNumber (getOriginalRange d)"
    if "d \<in> set (computeDecorations editor infos emphasisLine selectionRange)"
  proof -
    from computeDecorations_newDecoration [OF that]
    obtain info r opts hov where "d = newDecoration info r opts hov" by blast
    then show ?thesis
      by (simp add: decoration_range_def getOriginalRange_def newDecoration_def
          new_CommentingRangeDecoration_def)
  qed
  then show ?thesis
    by (simp add: decoration_range_def)
qed

theorem C10_decoration_range_whole_lines_witness:
  "decoration_range
     (newDecoration (providerInfo ''O'' (rangesInfo 0 [Range_new 4 7 9 3])) (Range_new 4 7 9 3)
        decorationOptions False)
   = lines 4 9"
proof -
  let ?info = "providerInfo ''O'' (rangesInfo 0 [Range_new 4 7 9 3])"
  let ?d = "newDecoration ?info (Range_new 4 7 9 3) decorationOptions False"
  have "computeDecorations plainEditor [?info] (- 1) None = [?d]"
    by (simp add: computeDecorations_def providerInfo_def rangesInfo_def emitForRange_def
        Range_new_def Let_def newDecoration_def)
  then have "?d \<in> set (computeDecorations plainEditor [?info] (- 1) None)"
    by simp
  with C10_decoration_range_whole_lines [of ?d plainEditor "[?info]" "- 1" None]
  have "startColumn (decoration_range ?d) = 1 \<and> endColumn (decoration_range ?d) = 1
      \<and> startLineNumber (decoration_range ?d) = startLineNumber (getOriginalRange ?d)
      \<and> endLineNumber (decoration_range ?d) = endLineNumber (getOriginalRange ?d)"
    by blast
  moreover have "getOriginalRange ?d = Range_new 4 7 9 3"
    by (simp add: getOriginalRange_def newDecoration_def new_CommentingRangeDecoration_def)
  ultimately show ?thesis
    by (simp add: lines_def Range_new_def decoration_range_def)
qed

section \<open>The hit test\<close>

lemma boundingUnion_snoc:
  "boundingUnion (rs @ [r]) =
     (case boundingUnion rs of
        None \<Rightarrow> Some (startLineNumber r, endLineNumber r)
      | Some (s, e) \<Rightarrow> Some (min s (startLineNumber r), max e (endLineNumber r)))"
  by (induction rs) (auto split: option.splits)

lemma touchingClaims_snoc:
  "touchingClaims editor H own (ds @ [d]) =
     touchingClaims editor H own ds @
       (case getActiveRange editor d of
          None \<Rightarrow> []
        | Some r \<Rightarrow>
            if d_ownerId d = own \<and> areRangesIntersectingOrTouchingByLine r H then [r] else [])"
  by (simp add: touchingClaims_def map_filter_def split: option.splits)

lemma touchingClaims_Nil [simp]: "touchingClaims editor H own [] = []"
  by (simp add: touchingClaims_def map_filter_def)

lemma map_of_matchDecoration:
  "map_of (matchDecoration editor H found d) =
     (case getActiveRange editor d of
        None \<Rightarrow> map_of found
      | Some r \<Rightarrow>
          if areRangesIntersectingOrTouchingByLine r H
          then (map_of found)(d_ownerId d \<mapsto>
                 (case map_of found (d_ownerId d) of
                    None \<Rightarrow> (r, getCommentAction d)
                  | Some (r0, a0) \<Rightarrow>
                      if sameObject (commentingRangesInfo a0) (d_commentingRangesInfo d)
                      then (Range_new (min (startLineNumber r) (startLineNumber r0))
                              (min (startColumn r) (startColumn r0))
                              (max (endLineNumber r) (endLineNumber r0))
                              (max (endColumn r) (endColumn r0)), getCommentAction d)
                      else (r, getCommentAction d)))
          else map_of found)"
proof -
  have m: "(if a < b then a else b) = min a b" "(if a > b then a else b) = max a b" for a b :: int
    by auto
  have o: "ownerId (getCommentAction d) = d_ownerId d"
    "commentingRangesInfo (getCommentAction d) = d_commentingRangesInfo d"
    by (simp_all add: getCommentAction_def)
  show ?thesis
  proof (cases "getActiveRange editor d")
    case None
    then show ?thesis by (simp add: matchDecoration_def)
  next
    case (Some r)
    show ?thesis
    proof (cases "map_of found (d_ownerId d)")
      case None
      with Some show ?thesis
        by (simp add: matchDecoration_def Let_def update_conv' o)
    next
      case (Some p)
      obtain r0 a0 where p: "p = (r0, a0)" by (cases p)
      with Some \<open>getActiveRange editor d = Some r\<close> show ?thesis
        by (simp add: matchDecoration_def Let_def update_conv' o m)
    qed
  qed
qed

lemma set_update_subset:
  "set (AList.update k v al) \<subseteq> insert (k, v) (set al)"
  by (induction al) auto

lemma matchDecoration_cases:
  "matchDecoration editor H found d = found
   \<or> (\<exists>x. matchDecoration editor H found d =
          AList.update (ownerId (getCommentAction d)) (x, getCommentAction d) found)"
proof (cases "getActiveRange editor d")
  case None
  then show ?thesis by (simp add: matchDecoration_def)
next
  case (Some r)
  show ?thesis
  proof (cases "areRangesIntersectingOrTouchingByLine r H")
    case False
    with Some show ?thesis by (simp add: matchDecoration_def)
  next
    case True
    show ?thesis
    proof (cases "map_of found (ownerId (getCommentAction d))")
      case None
      with Some True show ?thesis by (simp add: matchDecoration_def Let_def) blast
    next
      case (Some p)
      obtain r0 a0 where p: "p = (r0, a0)" by (cases p)
      show ?thesis
      proof (cases "sameObject (commentingRangesInfo a0) (commentingRangesInfo (getCommentAction d))")
        case True
        with \<open>getActiveRange editor d = Some r\<close> \<open>areRangesIntersectingOrTouchingByLine r H\<close> Some p
        show ?thesis by (simp add: matchDecoration_def Let_def) blast
      next
        case False
        with \<open>getActiveRange editor d = Some r\<close> \<open>areRangesIntersectingOrTouchingByLine r H\<close> Some p
        show ?thesis by (simp add: matchDecoration_def Let_def) blast
      qed
    qed
  qed
qed

lemma fst_matchDecoration:
  "distinct (map fst found) \<Longrightarrow> distinct (map fst (matchDecoration editor H found d))"
  using matchDecoration_cases [of editor H found d] by (auto simp: distinct_update)

lemma matchDecoration_keys:
  assumes "\<forall>(k, r, a) \<in> set found. ownerId a = k"
  shows "\<forall>(k, r, a) \<in> set (matchDecoration editor H found d). ownerId a = k"
proof -
  have "ownerId a' = k'"
    if "(k', r', a') \<in> set (AList.update (ownerId a) (r, a) found)" for r a k' r' a'
    using that assms set_update_subset [of "ownerId a" "(r, a)" found] by auto
  then show ?thesis
    using assms matchDecoration_cases [of editor H found d] by fastforce
qed

lemma foundHoverActionsFor_snoc:
  "foundHoverActionsFor editor H (ds @ [d]) =
     matchDecoration editor H (foundHoverActionsFor editor H ds) d"
  by (simp add: foundHoverActionsFor_def)

lemma foundHoverActionsFor_distinct:
  "distinct (map fst (foundHoverActionsFor editor H ds))"
  by (induction ds rule: rev_induct)
     (simp_all add: foundHoverActionsFor_snoc fst_matchDecoration, simp add: foundHoverActionsFor_def)

lemma foundHoverActionsFor_keys:
  "\<forall>(k, r, a) \<in> set (foundHoverActionsFor editor H ds). ownerId a = k"
proof (induction ds rule: rev_induct)
  case Nil
  show ?case by (simp add: foundHoverActionsFor_def)
next
  case (snoc d ds)
  then show ?case
    unfolding foundHoverActionsFor_snoc by (rule matchDecoration_keys)
qed

text \<open>Which owners the hit test returns, read off the map.\<close>

lemma filtered_actions_iff:
  fixes found :: FoundHoverActions
  shows "a \<in> set (map snd (filter (\<lambda>(rng, action). P rng) (map snd found))) \<longleftrightarrow>
      (\<exists>k r. (k, r, a) \<in> set found \<and> P r)"
proof
  assume "a \<in> set (map snd (filter (\<lambda>(rng, action). P rng) (map snd found)))"
  then obtain p where p: "p \<in> set (filter (\<lambda>(rng, action). P rng) (map snd found))" "snd p = a"
    by auto
  from p(1) obtain e where e: "e \<in> set found" "snd e = p" "P (fst p)"
    by (auto simp: case_prod_beta)
  obtain k r a' where "e = (k, r, a')"
    by (cases e) auto
  with e p have "(k, r, a) \<in> set found \<and> P r"
    by auto
  then show "\<exists>k r. (k, r, a) \<in> set found \<and> P r"
    by blast
next
  assume "\<exists>k r. (k, r, a) \<in> set found \<and> P r"
  then obtain k r where kr: "(k, r, a) \<in> set found" "P r"
    by blast
  from kr(1) have "snd (k, r, a) \<in> snd ` set found"
    by (rule imageI)
  with kr(2) have "(r, a) \<in> set (filter (\<lambda>(rng, action). P rng) (map snd found))"
    by simp
  then have "snd (r, a) \<in> snd ` set (filter (\<lambda>(rng, action). P rng) (map snd found))"
    by (rule imageI)
  then show "a \<in> set (map snd (filter (\<lambda>(rng, action). P rng) (map snd found)))"
    by simp
qed

lemma getMatchedCommentAction_set:
  "a \<in> set (getMatchedCommentAction this editor (Some H)) \<longleftrightarrow>
     (\<exists>k r. (k, r, a) \<in> set (foundHoverActionsFor editor H (commentingRangeDecorations this))
        \<and> startLineNumber r \<le> startLineNumber H \<and> endLineNumber H \<le> endLineNumber r)"
  using filtered_actions_iff
    [of a "\<lambda>r. startLineNumber r \<le> startLineNumber H \<and> endLineNumber H \<le> endLineNumber r"
      "foundHoverActionsFor editor H (commentingRangeDecorations this)"]
  by (simp add: getMatchedCommentAction_def)

lemma getMatchedCommentAction_owner:
  "(\<exists>a \<in> set (getMatchedCommentAction this editor (Some H)). ownerId a = own) \<longleftrightarrow>
   (\<exists>r a. map_of (foundHoverActionsFor editor H (commentingRangeDecorations this)) own = Some (r, a)
      \<and> startLineNumber r \<le> startLineNumber H \<and> endLineNumber H \<le> endLineNumber r)"
proof -
  let ?found = "foundHoverActionsFor editor H (commentingRangeDecorations this)"
  have keys: "ownerId a = k" if "(k, r, a) \<in> set ?found" for k r a
    using foundHoverActionsFor_keys [of editor H "commentingRangeDecorations this"] that
    by auto
  have dist: "distinct (map fst ?found)"
    by (rule foundHoverActionsFor_distinct)
  have m: "map_of ?found own = Some (r, a) \<longleftrightarrow> (own, r, a) \<in> set ?found" for r a
    using dist by simp
  show ?thesis
    unfolding m Bex_def getMatchedCommentAction_set
    using keys by blast
qed

text \<open>
  The entry of the map for one owner after the loop, when the claims of that owner that
  touch the hit range all belong to the same commenting ranges object and their current
  ranges are ordered: its lines are the bounding union of those claims.
\<close>

lemma foundHoverActionsFor_owner:
  assumes same: "\<forall>d \<in> set ds. \<forall>d' \<in> set ds.
        d_ownerId d = own \<and> claimTouches editor H d \<and> d_ownerId d' = own \<and> claimTouches editor H d' \<longrightarrow>
        sameObject (d_commentingRangesInfo d) (d_commentingRangesInfo d')"
    and wf: "\<forall>d \<in> set ds. \<forall>r. getActiveRange editor d = Some r \<longrightarrow>
        startLineNumber r \<le> endLineNumber r"
  shows "case boundingUnion (touchingClaims editor H own ds) of
           None \<Rightarrow> map_of (foundHoverActionsFor editor H ds) own = None
         | Some (s, e) \<Rightarrow>
             s \<le> e \<and> (\<exists>r a. map_of (foundHoverActionsFor editor H ds) own = Some (r, a)
                \<and> startLineNumber r = s \<and> endLineNumber r = e
                \<and> (\<exists>d \<in> set ds. d_ownerId d = own \<and> claimTouches editor H d
                      \<and> commentingRangesInfo a = d_commentingRangesInfo d))"
  using assms
proof (induction ds rule: rev_induct)
  case Nil
  show ?case by (simp add: foundHoverActionsFor_def)
next
  case (snoc d ds)
  let ?found = "foundHoverActionsFor editor H ds"
  have IH: "case boundingUnion (touchingClaims editor H own ds) of
           None \<Rightarrow> map_of ?found own = None
         | Some (s, e) \<Rightarrow>
             s \<le> e \<and> (\<exists>r a. map_of ?found own = Some (r, a)
                \<and> startLineNumber r = s \<and> endLineNumber r = e
                \<and> (\<exists>d \<in> set ds. d_ownerId d = own \<and> claimTouches editor H d
                      \<and> commentingRangesInfo a = d_commentingRangesInfo d))"
    using snoc by simp
  show ?case
  proof (cases "getActiveRange editor d")
    case None
    then show ?thesis
      using IH
      by (auto simp: foundHoverActionsFor_snoc map_of_matchDecoration touchingClaims_snoc
          split: option.splits)
  next
    case (Some r)
    then have r: "startLineNumber r \<le> endLineNumber r"
      using snoc.prems(2) by simp
    show ?thesis
    proof (cases "d_ownerId d = own \<and> areRangesIntersectingOrTouchingByLine r H")
      case False
      then have "map_of (foundHoverActionsFor editor H (ds @ [d])) own = map_of ?found own"
        using Some by (auto simp: foundHoverActionsFor_snoc map_of_matchDecoration)
      moreover have "touchingClaims editor H own (ds @ [d]) = touchingClaims editor H own ds"
        using Some False by (auto simp: touchingClaims_snoc)
      ultimately show ?thesis
        using IH by (auto split: option.splits)
    next
      case True
      have touches: "claimTouches editor H d"
        using Some True by (simp add: claimTouches_def)
      have tc: "touchingClaims editor H own (ds @ [d]) = touchingClaims editor H own ds @ [r]"
        using Some True by (simp add: touchingClaims_snoc)
      show ?thesis
      proof (cases "boundingUnion (touchingClaims editor H own ds)")
        case None
        with IH have "map_of ?found own = None" by simp
        then have "map_of (foundHoverActionsFor editor H (ds @ [d])) own = Some (r, getCommentAction d)"
          using Some True by (simp add: foundHoverActionsFor_snoc map_of_matchDecoration)
        moreover have "commentingRangesInfo (getCommentAction d) = d_commentingRangesInfo d"
          by (simp add: getCommentAction_def)
        ultimately show ?thesis
          using None r True touches by (auto simp: tc boundingUnion_snoc)
      next
        case (Some se)
        obtain s e where se: "se = (s, e)" by (cases se)
        with IH Some obtain r0 a0 d0 where
          old: "s \<le> e" "map_of ?found own = Some (r0, a0)"
            "startLineNumber r0 = s" "endLineNumber r0 = e"
            "d0 \<in> set ds" "d_ownerId d0 = own" "commentingRangesInfo a0 = d_commentingRangesInfo d0"
            "claimTouches editor H d0"
          by auto
        have "sameObject (d_commentingRangesInfo d0) (d_commentingRangesInfo d)"
          using snoc.prems(1) old(5,6,8) True touches by simp
        then have "map_of (foundHoverActionsFor editor H (ds @ [d])) own =
            Some (Range_new (min (startLineNumber r) (startLineNumber r0))
                    (min (startColumn r) (startColumn r0))
                    (max (endLineNumber r) (endLineNumber r0))
                    (max (endColumn r) (endColumn r0)), getCommentAction d)"
          using \<open>getActiveRange editor d = Some r\<close> True old(2,7)
          by (simp add: foundHoverActionsFor_snoc map_of_matchDecoration)
        moreover have "min (startLineNumber r) (startLineNumber r0) \<le> max (endLineNumber r) (endLineNumber r0)"
          using r old(1,3,4) by simp
        moreover have "commentingRangesInfo (getCommentAction d) = d_commentingRangesInfo d"
          by (simp add: getCommentAction_def)
        ultimately show ?thesis
          using Some se old(1,3,4) r True touches
          by (auto simp: tc boundingUnion_snoc Range_new_startLine Range_new_endLine min.commute max.commute)
      qed
    qed
  qed
qed

text \<open>
  C2 (merge correctness). For a defined hit range \<open>H\<close> and an owner whose claims touching
  \<open>H\<close> all come from the same commenting ranges object, \<^verbatim>\<open>getMatchedCommentAction\<close> returns
  an action of that owner exactly when the union of those claims (the bounding union of
  their current ranges, which the editor keeps ordered) contains \<open>H\<close> with both end lines.
  The witness is the example of the claim: claims on line 1 and on line 2 merge to lines 1
  to 2, so the hit range of lines 1 to 2 returns the owner and that of lines 1 to 3 does not.
\<close>

theorem C2_getMatchedCommentAction_merge:
  assumes "\<forall>d \<in> set (commentingRangeDecorations this).
           \<forall>d' \<in> set (commentingRangeDecorations this).
             d_ownerId d = own \<and> claimTouches editor H d
             \<and> d_ownerId d' = own \<and> claimTouches editor H d' \<longrightarrow>
             sameObject (d_commentingRangesInfo d) (d_commentingRangesInfo d')"
    and "\<forall>d \<in> set (commentingRangeDecorations this).
           \<forall>r. getActiveRange editor d = Some r \<longrightarrow> startLineNumber r \<le> endLineNumber r"
  shows "(\<exists>a \<in> set (getMatchedCommentAction this editor (Some H)). ownerId a = own) \<longleftrightarrow>
         unionContains (touchingClaims editor H own (commentingRangeDecorations this)) H"
proof -
  let ?ds = "commentingRangeDecorations this"
  note entry = foundHoverActionsFor_owner [OF assms]
  show ?thesis
  proof (cases "boundingUnion (touchingClaims editor H own ?ds)")
    case None
    with entry have "map_of (foundHoverActionsFor editor H ?ds) own = None"
      by simp
    with None show ?thesis
      by (simp add: getMatchedCommentAction_owner unionContains_def)
  next
    case (Some se)
    obtain s e where se: "se = (s, e)" by (cases se)
    with entry Some obtain r a where
      "map_of (foundHoverActionsFor editor H ?ds) own = Some (r, a)"
      "startLineNumber r = s" "endLineNumber r = e"
      by auto
    with Some se show ?thesis
      by (simp add: getMatchedCommentAction_owner unionContains_def)
  qed
qed

theorem C2_getMatchedCommentAction_merge_witness:
  "boundingUnion (touchingClaims (editorWith (lines 1 1) (lines 2 2)) (lines 1 2) ''O''
     [claim ''O'' (rangesInfo 0 [lines 1 2]) (lines 1 1) ''a'',
      claim ''O'' (rangesInfo 0 [lines 1 2]) (lines 2 2) ''b'']) = Some (1, 2)
   \<and> (\<exists>a \<in> set (getMatchedCommentAction
          (decoratorWith [claim ''O'' (rangesInfo 0 [lines 1 2]) (lines 1 1) ''a'',
                          claim ''O'' (rangesInfo 0 [lines 1 2]) (lines 2 2) ''b''])
          (editorWith (lines 1 1) (lines 2 2)) (Some (lines 1 2))). ownerId a = ''O'')
   \<and> \<not> (\<exists>a \<in> set (getMatchedCommentAction
          (decoratorWith [claim ''O'' (rangesInfo 0 [lines 1 2]) (lines 1 1) ''a'',
                          claim ''O'' (rangesInfo 0 [lines 1 2]) (lines 2 2) ''b''])
          (editorWith (lines 1 1) (lines 2 2)) (Some (lines 1 3))). ownerId a = ''O'')"
proof -
  let ?ed = "editorWith (lines 1 1) (lines 2 2)"
  let ?ds = "[claim ''O'' (rangesInfo 0 [lines 1 2]) (lines 1 1) ''a'',
              claim ''O'' (rangesInfo 0 [lines 1 2]) (lines 2 2) ''b'']"
  have active: "getActiveRange (editorWith ra rb) (claim own cr r ''a'') = Some ra"
    "getActiveRange (editorWith ra rb) (claim own cr r ''b'') = Some rb" for ra rb own cr r
    by (simp_all add: getActiveRange_def claim_def editorWith_def)
  have own: "d_ownerId (claim ''O'' cr r i) = ''O''"
    and info: "d_commentingRangesInfo (claim ''O'' cr r i) = cr" for cr r i
    by (simp_all add: claim_def newDecoration_def new_CommentingRangeDecoration_def providerInfo_def)
  have ds: "commentingRangeDecorations (decoratorWith xs) = xs" for xs
    by (simp add: decoratorWith_def)
  have same: "\<forall>d \<in> set (commentingRangeDecorations (decoratorWith ?ds)).
           \<forall>d' \<in> set (commentingRangeDecorations (decoratorWith ?ds)).
             d_ownerId d = ''O'' \<and> claimTouches ?ed H d
             \<and> d_ownerId d' = ''O'' \<and> claimTouches ?ed H d' \<longrightarrow>
             sameObject (d_commentingRangesInfo d) (d_commentingRangesInfo d')" for H
    by (simp add: ds info sameObject_def)
  have wf: "\<forall>d \<in> set (commentingRangeDecorations (decoratorWith ?ds)).
           \<forall>r. getActiveRange ?ed d = Some r \<longrightarrow> startLineNumber r \<le> endLineNumber r"
    by (simp add: ds active) (simp add: lines_def)
  have t12: "touchingClaims ?ed (lines 1 2) ''O'' ?ds = [lines 1 1, lines 2 2]"
    by (simp add: touchingClaims_def active own areRangesIntersectingOrTouchingByLine_def lines_def)
  have t13: "touchingClaims ?ed (lines 1 3) ''O'' ?ds = [lines 1 1, lines 2 2]"
    by (simp add: touchingClaims_def active own areRangesIntersectingOrTouchingByLine_def lines_def)
  have "boundingUnion (touchingClaims ?ed (lines 1 2) ''O'' ?ds) = Some (1, 2)"
    unfolding t12 by (simp add: lines_def)
  moreover have "\<exists>a \<in> set (getMatchedCommentAction (decoratorWith ?ds) ?ed (Some (lines 1 2))).
      ownerId a = ''O''"
    using C2_getMatchedCommentAction_merge [OF same wf, of "lines 1 2"]
    unfolding ds t12 by (simp add: unionContains_def lines_def)
  moreover have "\<not> (\<exists>a \<in> set (getMatchedCommentAction (decoratorWith ?ds) ?ed (Some (lines 1 3))).
      ownerId a = ''O'')"
    using C2_getMatchedCommentAction_merge [OF same wf, of "lines 1 3"]
    unfolding ds t13 by (simp add: unionContains_def lines_def)
  ultimately show ?thesis
    by blast
qed

lemma getMatchedCommentAction_Some:
  "getMatchedCommentAction this editor (Some H) =
     map snd
       (filter (\<lambda>(rng, action).
                  startLineNumber rng \<le> startLineNumber H \<and> endLineNumber H \<le> endLineNumber rng)
          (map snd (foundHoverActionsFor editor H (commentingRangeDecorations this))))"
  by (simp add: getMatchedCommentAction_def)

lemma getMatchedCommentAction_owners:
  "map ownerId (getMatchedCommentAction this editor (Some H)) =
     map fst (filter (\<lambda>(k, rng, action).
                startLineNumber rng \<le> startLineNumber H \<and> endLineNumber H \<le> endLineNumber rng)
        (foundHoverActionsFor editor H (commentingRangeDecorations this)))"
proof -
  have "map ownerId (map snd (filter (\<lambda>(rng, action). P rng) (map snd found))) =
      map fst (filter (\<lambda>(k, rng, action). P rng) found)"
    if "\<forall>(k, r, a) \<in> set found. ownerId a = k" for P and found :: FoundHoverActions
    using that by (induction found) auto
  then show ?thesis
    using foundHoverActionsFor_keys [of editor H "commentingRangeDecorations this"]
    by (simp add: getMatchedCommentAction_def)
qed

text \<open>
  C9 (one action per owner). For a defined hit range the owner ids of the actions returned
  are pairwise different. When a claim touches the hit range and the map already holds, for
  its owner, an entry made from another commenting ranges object, the entry becomes the
  claim's own range and action: the earlier entry is replaced, not merged.
\<close>

theorem C9_one_action_per_owner:
  "distinct (map ownerId (getMatchedCommentAction this editor (Some H)))
   \<and> (getActiveRange editor d = Some r \<and> areRangesIntersectingOrTouchingByLine r H
        \<and> map_of (foundHoverActionsFor editor H ds) (d_ownerId d) = Some (r0, a0)
        \<and> \<not> sameObject (commentingRangesInfo a0) (d_commentingRangesInfo d)
      \<longrightarrow> map_of (foundHoverActionsFor editor H (ds @ [d])) (d_ownerId d)
            = Some (r, getCommentAction d))"
proof -
  have "distinct (map fst (foundHoverActionsFor editor H (commentingRangeDecorations this)))"
    by (rule foundHoverActionsFor_distinct)
  then have "distinct (map ownerId (getMatchedCommentAction this editor (Some H)))"
    unfolding getMatchedCommentAction_owners by (rule distinct_map_filter)
  then show ?thesis
    by (simp add: foundHoverActionsFor_snoc map_of_matchDecoration)
qed

theorem C9_one_action_per_owner_witness:
  "map_of (foundHoverActionsFor (editorWith (lines 1 5) (lines 4 4)) (lines 2 3)
       [claim ''O'' (rangesInfo 0 [lines 1 5]) (lines 1 5) ''a'',
        claim ''O'' (rangesInfo 1 [lines 4 4]) (lines 4 4) ''b'']) ''O''
     = Some (lines 4 4, getCommentAction (claim ''O'' (rangesInfo 1 [lines 4 4]) (lines 4 4) ''b''))
   \<and> getMatchedCommentAction
        (decoratorWith [claim ''O'' (rangesInfo 0 [lines 1 5]) (lines 1 5) ''a'',
                        claim ''O'' (rangesInfo 1 [lines 4 4]) (lines 4 4) ''b''])
        (editorWith (lines 1 5) (lines 4 4)) (Some (lines 2 3)) = []
   \<and> distinct (map ownerId (getMatchedCommentAction
        (decoratorWith [claim ''O'' (rangesInfo 0 [lines 1 5]) (lines 1 5) ''a'',
                        claim ''O'' (rangesInfo 1 [lines 4 4]) (lines 4 4) ''b''])
        (editorWith (lines 1 5) (lines 4 4)) (Some (lines 4 4))))"
proof -
  let ?ed = "editorWith (lines 1 5) (lines 4 4)"
  let ?a = "claim ''O'' (rangesInfo 0 [lines 1 5]) (lines 1 5) ''a''"
  let ?b = "claim ''O'' (rangesInfo 1 [lines 4 4]) (lines 4 4) ''b''"
  have active: "getActiveRange (editorWith ra rb) (claim own cr r ''a'') = Some ra"
    "getActiveRange (editorWith ra rb) (claim own cr r ''b'') = Some rb" for ra rb own cr r
    by (simp_all add: getActiveRange_def claim_def editorWith_def)
  have own: "d_ownerId (claim ''O'' cr r i) = ''O''"
    and info: "d_commentingRangesInfo (claim ''O'' cr r i) = cr"
    and act: "ownerId (getCommentAction (claim ''O'' cr r i)) = ''O''"
      "commentingRangesInfo (getCommentAction (claim ''O'' cr r i)) = cr" for cr r i
    by (simp_all add: claim_def newDecoration_def new_CommentingRangeDecoration_def
        providerInfo_def getCommentAction_def)
  have ds: "commentingRangeDecorations (decoratorWith xs) = xs" for xs
    by (simp add: decoratorWith_def)
  have first: "foundHoverActionsFor ?ed (lines 2 3) [?a] = [(''O'', lines 1 5, getCommentAction ?a)]"
    by (simp add: foundHoverActionsFor_def matchDecoration_def active act
        areRangesIntersectingOrTouchingByLine_def lines_def)
  have touch: "areRangesIntersectingOrTouchingByLine (lines 4 4) (lines 2 3)"
    by (simp add: areRangesIntersectingOrTouchingByLine_def lines_def)
  have other: "\<not> sameObject (commentingRangesInfo (getCommentAction ?a)) (d_commentingRangesInfo ?b)"
    by (simp add: act info sameObject_def rangesInfo_def)
  have entry: "map_of (foundHoverActionsFor ?ed (lines 2 3) ([?a] @ [?b])) ''O''
      = Some (lines 4 4, getCommentAction ?b)"
    using C9_one_action_per_owner [of "decoratorWith [?a, ?b]" ?ed "lines 2 3" ?b "lines 4 4"
        "[?a]" "lines 1 5" "getCommentAction ?a"]
      active touch other
    by (simp add: first own)
  have found: "foundHoverActionsFor ?ed (lines 2 3) [?a, ?b] = [(''O'', lines 4 4, getCommentAction ?b)]"
    by (simp add: foundHoverActionsFor_def matchDecoration_def active act
        areRangesIntersectingOrTouchingByLine_def lines_def sameObject_def rangesInfo_def)
  have "getMatchedCommentAction (decoratorWith [?a, ?b]) ?ed (Some (lines 2 3)) = []"
    unfolding getMatchedCommentAction_Some ds found by (simp add: lines_def)
  moreover have "distinct (map ownerId (getMatchedCommentAction (decoratorWith [?a, ?b]) ?ed
      (Some (lines 4 4))))"
    using C9_one_action_per_owner [of "decoratorWith [?a, ?b]" ?ed "lines 4 4"]
    by blast
  ultimately show ?thesis
    using entry by simp
qed

section \<open>The nearest commenting range\<close>

lemma nearestScan_none_in_direction:
  assumes "\<forall>d \<in> set ds. \<forall>r. getActiveRange editor d = Some r \<longrightarrow>
      \<not> (startLineNumber r \<le> lineNumber pos \<and> lineNumber pos \<le> endLineNumber r)
      \<and> (if reverse then \<not> endLineNumber r < lineNumber pos
          else \<not> startLineNumber r > lineNumber pos)"
  shows "nearestScan editor pos reverse None ds = None"
  using assms
proof (induction ds)
  case Nil
  show ?case by simp
next
  case (Cons d ds)
  then have rest: "nearestScan editor pos reverse None ds = None"
    by simp
  show ?case
  proof (cases "getActiveRange editor d")
    case None
    with rest show ?thesis by simp
  next
    case (Some r)
    with Cons.prems have
      "\<not> (startLineNumber r \<le> lineNumber pos \<and> lineNumber pos \<le> endLineNumber r)"
      "if reverse then \<not> endLineNumber r < lineNumber pos else \<not> startLineNumber r > lineNumber pos"
      by simp_all
    with Some rest show ?thesis
      by (cases reverse) auto
  qed
qed

text \<open>
  C4 (cyclic wrap), as the code has it. For a non-empty claim list, when no claim's current
  range contains the line of the position and none lies strictly after it (strictly before
  it, when scanning in reverse), \<^verbatim>\<open>getNearestCommentingRange\<close> returns the current range
  of the first claim of the list it scanned: the first claim of the claim list when scanning
  forward, the last claim of the claim list when scanning in reverse.
\<close>

theorem C4_nearest_wraps_to_first_scanned:
  assumes "commentingRangeDecorations this \<noteq> []"
    and "\<forall>d \<in> set (commentingRangeDecorations this).
           \<forall>r. getActiveRange editor d = Some r \<longrightarrow>
             \<not> (startLineNumber r \<le> lineNumber pos \<and> lineNumber pos \<le> endLineNumber r)
             \<and> (if reverse then \<not> endLineNumber r < lineNumber pos
                 else \<not> startLineNumber r > lineNumber pos)"
  shows "getNearestCommentingRange this editor pos reverse =
           Inr (getActiveRange editor
                  (if reverse then last (commentingRangeDecorations this)
                   else hd (commentingRangeDecorations this)))"
proof -
  let ?ds = "commentingRangeDecorations this"
  let ?scanned = "if reverse then rev ?ds else ?ds"
  have "\<forall>d \<in> set ?scanned. \<forall>r. getActiveRange editor d = Some r \<longrightarrow>
      \<not> (startLineNumber r \<le> lineNumber pos \<and> lineNumber pos \<le> endLineNumber r)
      \<and> (if reverse then \<not> endLineNumber r < lineNumber pos
          else \<not> startLineNumber r > lineNumber pos)"
    using assms(2) by simp
  then have scan: "nearestScan editor pos reverse None ?scanned = None"
    by (rule nearestScan_none_in_direction)
  obtain first rest where scanned: "?scanned = first # rest"
    using assms(1) by (cases ?scanned) (auto split: if_splits)
  have "first = (if reverse then last ?ds else hd ?ds)"
  proof (cases reverse)
    case True
    with scanned have "rev ?ds = first # rest" by simp
    then have "hd (rev ?ds) = first" by simp
    with True assms(1) show ?thesis by (simp add: hd_rev)
  next
    case False
    with scanned show ?thesis by simp
  qed
  with scan scanned show ?thesis
    by (simp add: getNearestCommentingRange_def Let_def)
qed

theorem C4_nearest_wraps_to_first_scanned_witness:
  "getNearestCommentingRange
     (decoratorWith [claim ''O'' (rangesInfo 0 [lines 5 5, lines 10 10]) (lines 5 5) ''a'',
                     claim ''O'' (rangesInfo 0 [lines 5 5, lines 10 10]) (lines 10 10) ''b''])
     (editorWith (lines 5 5) (lines 10 10)) \<lparr>lineNumber = 12, column = 1\<rparr> False
   = Inr (Some (lines 5 5))
   \<and> getNearestCommentingRange
     (decoratorWith [claim ''O'' (rangesInfo 0 [lines 5 5, lines 10 10]) (lines 5 5) ''a'',
                     claim ''O'' (rangesInfo 0 [lines 5 5, lines 10 10]) (lines 10 10) ''b''])
     (editorWith (lines 5 5) (lines 10 10)) \<lparr>lineNumber = 3, column = 1\<rparr> True
   = Inr (Some (lines 10 10))"
proof -
  let ?ed = "editorWith (lines 5 5) (lines 10 10)"
  let ?a = "claim ''O'' (rangesInfo 0 [lines 5 5, lines 10 10]) (lines 5 5) ''a''"
  let ?b = "claim ''O'' (rangesInfo 0 [lines 5 5, lines 10 10]) (lines 10 10) ''b''"
  have active: "getActiveRange (editorWith ra rb) (claim own cr r ''a'') = Some ra"
    "getActiveRange (editorWith ra rb) (claim own cr r ''b'') = Some rb" for ra rb own cr r
    by (simp_all add: getActiveRange_def claim_def editorWith_def)
  have ds: "commentingRangeDecorations (decoratorWith xs) = xs" for xs
    by (simp add: decoratorWith_def)
  have ne: "commentingRangeDecorations (decoratorWith [?a, ?b]) \<noteq> []"
    by (simp add: ds)
  have fwd: "\<forall>d \<in> set (commentingRangeDecorations (decoratorWith [?a, ?b])).
      \<forall>r. getActiveRange ?ed d = Some r \<longrightarrow>
        \<not> (startLineNumber r \<le> lineNumber \<lparr>lineNumber = 12, column = 1\<rparr>
            \<and> lineNumber \<lparr>lineNumber = 12, column = 1\<rparr> \<le> endLineNumber r)
        \<and> (if False then \<not> endLineNumber r < lineNumber \<lparr>lineNumber = 12, column = 1\<rparr>
            else \<not> startLineNumber r > lineNumber \<lparr>lineNumber = 12, column = 1\<rparr>)"
    by (simp add: ds active) (simp add: lines_def)
  have bwd: "\<forall>d \<in> set (commentingRangeDecorations (decoratorWith [?a, ?b])).
      \<forall>r. getActiveRange ?ed d = Some r \<longrightarrow>
        \<not> (startLineNumber r \<le> lineNumber \<lparr>lineNumber = 3, column = 1\<rparr>
            \<and> lineNumber \<lparr>lineNumber = 3, column = 1\<rparr> \<le> endLineNumber r)
        \<and> (if True then \<not> endLineNumber r < lineNumber \<lparr>lineNumber = 3, column = 1\<rparr>
            else \<not> startLineNumber r > lineNumber \<lparr>lineNumber = 3, column = 1\<rparr>)"
    by (simp add: ds active) (simp add: lines_def)
  show ?thesis
    using C4_nearest_wraps_to_first_scanned [OF ne fwd] C4_nearest_wraps_to_first_scanned [OF ne bwd]
    by (simp add: ds active)
qed

text \<open>
  The claim as stated fails for the reverse scan: with claims on line 5 and on line 10, the
  reverse query from line 3 returns line 10, which is the last claim of the claim list, not
  its first.
\<close>

theorem C4_reverse_wrap_counterexample:
  "getNearestCommentingRange
     (decoratorWith [claim ''O'' (rangesInfo 0 [lines 5 5, lines 10 10]) (lines 5 5) ''a'',
                     claim ''O'' (rangesInfo 0 [lines 5 5, lines 10 10]) (lines 10 10) ''b''])
     (editorWith (lines 5 5) (lines 10 10)) \<lparr>lineNumber = 3, column = 1\<rparr> True
   \<noteq> Inr (getActiveRange (editorWith (lines 5 5) (lines 10 10))
            (hd (commentingRangeDecorations
              (decoratorWith [claim ''O'' (rangesInfo 0 [lines 5 5, lines 10 10]) (lines 5 5) ''a'',
                              claim ''O'' (rangesInfo 0 [lines 5 5, lines 10 10]) (lines 10 10) ''b'']))))"
proof -
  have active: "getActiveRange (editorWith ra rb) (claim own cr r ''a'') = Some ra"
    "getActiveRange (editorWith ra rb) (claim own cr r ''b'') = Some rb" for ra rb own cr r
    by (simp_all add: getActiveRange_def claim_def editorWith_def)
  have ds: "commentingRangeDecorations (decoratorWith xs) = xs" for xs
    by (simp add: decoratorWith_def)
  have "getNearestCommentingRange
     (decoratorWith [claim ''O'' (rangesInfo 0 [lines 5 5, lines 10 10]) (lines 5 5) ''a'',
                     claim ''O'' (rangesInfo 0 [lines 5 5, lines 10 10]) (lines 10 10) ''b''])
     (editorWith (lines 5 5) (lines 10 10)) \<lparr>lineNumber = 3, column = 1\<rparr> True
     = Inr (Some (lines 10 10))"
    by (simp add: getNearestCommentingRange_def ds active) (simp add: lines_def)
  moreover have "lines 10 10 \<noteq> lines 5 5"
    by (simp add: lines_def)
  ultimately show ?thesis
    by (simp add: ds active)
qed

text \<open>
  C7 (the empty claim list). With a non-empty claim list \<^verbatim>\<open>getNearestCommentingRange\<close>
  returns, a range or \<^verbatim>\<open>undefined\<close>: the read of the first claim after the loop is in
  bounds. With an empty claim list that read is out of bounds and the call raises; nothing
  in the function guards it.
\<close>

theorem C7_nearest_needs_a_claim:
  "(commentingRangeDecorations this \<noteq> [] \<longrightarrow>
      (\<exists>result. getNearestCommentingRange this editor pos reverse = Inr result))
   \<and> (commentingRangeDecorations this = [] \<longrightarrow>
      getNearestCommentingRange this editor pos reverse = Inl TypeError)"
proof -
  let ?scanned = "if reverse then rev (commentingRangeDecorations this)
                  else commentingRangeDecorations this"
  have "\<exists>result. getNearestCommentingRange this editor pos reverse = Inr result"
    if "commentingRangeDecorations this \<noteq> []"
  proof -
    from that obtain first rest where "?scanned = first # rest"
      by (cases ?scanned) (auto split: if_splits)
    then show ?thesis
      by (cases "nearestScan editor pos reverse None ?scanned")
         (simp_all add: getNearestCommentingRange_def Let_def)
  qed
  moreover have "getNearestCommentingRange this editor pos reverse = Inl TypeError"
    if "commentingRangeDecorations this = []"
    using that by (simp add: getNearestCommentingRange_def)
  ultimately show ?thesis
    by blast
qed

theorem C7_nearest_needs_a_claim_witness:
  "(\<exists>result. getNearestCommentingRange
       (decoratorWith [claim ''O'' (rangesInfo 0 [lines 5 5]) (lines 5 5) ''a''])
       (editorWith (lines 5 5) (lines 5 5)) \<lparr>lineNumber = 5, column = 1\<rparr> False = Inr result)
   \<and> getNearestCommentingRange (decoratorWith []) plainEditor \<lparr>lineNumber = 5, column = 1\<rparr> False
       = Inl TypeError"
proof -
  have ds: "commentingRangeDecorations (decoratorWith xs) = xs" for xs
    by (simp add: decoratorWith_def)
  show ?thesis
    using C7_nearest_needs_a_claim
        [of "decoratorWith [claim ''O'' (rangesInfo 0 [lines 5 5]) (lines 5 5) ''a'']"
          "editorWith (lines 5 5) (lines 5 5)" "\<lparr>lineNumber = 5, column = 1\<rparr>" False]
      C7_nearest_needs_a_claim [of "decoratorWith []" plainEditor "\<lparr>lineNumber = 5, column = 1\<rparr>" False]
    by (simp add: ds)
qed

section \<open>Adding a comment where no provider claims the line\<close>

text \<open>
  C8 (add with no provider fails fast). When the hit test returns no action for the range,
  \<^verbatim>\<open>addCommentAtLine\<close> raises its error to the caller in the same call and leaves the
  controller as it was but for the add-in-progress flag, which it has reset: the queue of
  waiting requests is not touched, no thread template is requested and nothing is retried.
\<close>

theorem C8_addCommentAtLine_fails_fast:
  assumes "getMatchedCommentAction (commentingRangeDecorator this) ed rng = []"
  shows "addCommentAtLine ed this rng e =
           (Inl NoCommentingRangesError, this\<lparr>addInProgress := False\<rparr>)"
  using assms by (simp add: addCommentAtLine.simps)

theorem C8_addCommentAtLine_fails_fast_witness:
  "addCommentAtLine plainEditor
     (emptyController\<lparr>emptyThreadsToAddQueue := [(Some (lines 7 7), None)]\<rparr>)
     (Some (lines 3 3)) None
   = (Inl NoCommentingRangesError,
      emptyController\<lparr>emptyThreadsToAddQueue := [(Some (lines 7 7), None)],
                       addInProgress := False\<rparr>)"
proof -
  have "getMatchedCommentAction
      (commentingRangeDecorator (emptyController\<lparr>emptyThreadsToAddQueue := [(Some (lines 7 7), None)]\<rparr>))
      plainEditor (Some (lines 3 3)) = []"
    by (simp add: emptyController_def decoratorWith_def getMatchedCommentAction_def
        foundHoverActionsFor_def)
  from C8_addCommentAtLine_fails_fast [OF this] show ?thesis
    by simp
qed

section \<open>The draft cache\<close>

lemma getDraft_plain:
  "plainPropertyName k \<Longrightarrow> getDraft store k = map_option StringValue (store k)"
  by (simp add: getDraft_def plainPropertyName_def split: option.splits)

lemma plainPropertyName_not_proto:
  "plainPropertyName k \<Longrightarrow> k \<noteq> ''__proto__''"
  by (auto simp: plainPropertyName_def objectPrototypeNames_def)

lemma readNewCommentCache_plain:
  "plainPropertyName (propertyKey tid) \<Longrightarrow>
   readNewCommentCache this own tid = map_option StringValue (cachedNewComment this own tid)"
  by (simp add: readNewCommentCache_def cachedNewComment_def getDraft_plain split: option.splits)

lemma cachedNewComment_storeZoneCache_same:
  assumes "propertyKey (threadId (zone_commentThread zone)) \<noteq> ''__proto__''"
  shows "cachedNewComment (storeZoneCache this zone) (zone_owner zone) (threadId (zone_commentThread zone))
     = (if draftPending zone then zone_newComment zone else None)"
  using assms
  by (auto simp: cachedNewComment_def storeZoneCache_def Let_def draftPending_def
      setDraft_def deleteDraft_def split: option.splits)

lemma cachedNewComment_storeZoneCache_other:
  assumes "(own, propertyKey tid) \<noteq> zoneKey zone"
  shows "cachedNewComment (storeZoneCache this zone) own tid = cachedNewComment this own tid"
  using assms
  by (auto simp: cachedNewComment_def storeZoneCache_def Let_def zoneKey_def
      setDraft_def deleteDraft_def split: option.splits)

lemma cachedNewComment_foldl_other:
  assumes "\<forall>w \<in> set zones. zoneKey w \<noteq> (own, propertyKey tid)"
  shows "cachedNewComment (foldl storeZoneCache this zones) own tid = cachedNewComment this own tid"
  using assms
proof (induction zones arbitrary: this)
  case Nil
  show ?case by simp
next
  case (Cons z zones)
  then have "cachedNewComment (foldl storeZoneCache (storeZoneCache this z) zones) own tid
      = cachedNewComment (storeZoneCache this z) own tid"
    by simp
  also have "\<dots> = cachedNewComment this own tid"
    using Cons.prems by (intro cachedNewComment_storeZoneCache_other) auto
  finally show ?case by simp
qed

lemma cachedNewComment_commentWidgets_update [simp]:
  "cachedNewComment (this\<lparr>commentWidgets := ws\<rparr>) own tid = cachedNewComment this own tid"
  by (simp add: cachedNewComment_def)

lemma cachedNewComment_teardown:
  assumes "zone \<in> set (commentWidgets this)"
    and "\<forall>w \<in> set (commentWidgets this). w \<noteq> zone \<longrightarrow> zoneKey w \<noteq> zoneKey zone"
    and "propertyKey (threadId (zone_commentThread zone)) \<noteq> ''__proto__''"
  shows "cachedNewComment (removeCommentWidgetsAndStoreCache this)
           (zone_owner zone) (threadId (zone_commentThread zone))
         = (if draftPending zone then zone_newComment zone else None)"
proof -
  from assms(1) obtain ys zs where split: "commentWidgets this = ys @ zone # zs" "zone \<notin> set zs"
    by (meson split_list_last)
  have later: "\<forall>w \<in> set zs. zoneKey w \<noteq> (zone_owner zone, propertyKey (threadId (zone_commentThread zone)))"
    using assms(2) split by (auto simp: zoneKey_def)
  have "foldl storeZoneCache this (commentWidgets this) =
      foldl storeZoneCache (storeZoneCache (foldl storeZoneCache this ys) zone) zs"
    by (simp add: split)
  then show ?thesis
    by (simp add: removeCommentWidgetsAndStoreCache_def cachedNewComment_foldl_other [OF later]
        cachedNewComment_storeZoneCache_same [OF assms(3)])
qed

lemma displayCommentThread_frame:
  "pendingNewCommentCache (displayCommentThread ed this own thread pc pe) = pendingNewCommentCache this"
  "pendingEditsCache (displayCommentThread ed this own thread pc pe) = pendingEditsCache this"
  "editorAttached (displayCommentThread ed this own thread pc pe) = editorAttached this"
  "editorIsInlineOriginal (displayCommentThread ed this own thread pc pe) = editorIsInlineOriginal this"
  by (simp_all add: displayCommentThread_def)

lemma displayCommentThread_widgets:
  "commentWidgets (displayCommentThread ed this own thread pc pe) =
     commentWidgets this @
       (if editorAttached this \<and> hasModel ed \<and> \<not> editorIsInlineOriginal this
        then [new_ReviewZoneWidget own thread pc pe] else [])"
  by (simp add: displayCommentThread_def)

lemma new_ReviewZoneWidget_fields:
  "zone_owner (new_ReviewZoneWidget own thread pc pe) = own"
  "zone_commentThread (new_ReviewZoneWidget own thread pc pe) = thread"
  "zone_pendingComment (new_ReviewZoneWidget own thread pc pe) = pc"
  "zone_newComment (new_ReviewZoneWidget own thread pc pe) =
     (case pc of Some (StringValue s) \<Rightarrow> Some s | _ \<Rightarrow> None)"
  by (simp_all add: new_ReviewZoneWidget_def)

text \<open>
  The widgets the inner loop of \<^verbatim>\<open>setComments\<close> adds: each carries the owner and was
  given, as its draft, what the provider's store yields under its thread id, and shows that
  draft if it is a text; when the editor can display threads there is one per thread.
\<close>

lemma displayInfoThreads_widgets:
  "\<exists>news. commentWidgets (snd (displayInfoThreads ed own store estore ts this))
             = commentWidgets this @ news
     \<and> (\<forall>w \<in> set news. zone_owner w = own
           \<and> zone_pendingComment w =
               (case store of None \<Rightarrow> None
                | Some st \<Rightarrow> getDraft st (propertyKey (threadId (zone_commentThread w))))
           \<and> zone_newComment w =
               (case zone_pendingComment w of Some (StringValue s) \<Rightarrow> Some s | _ \<Rightarrow> None))
     \<and> (editorAttached this \<and> hasModel ed \<and> \<not> editorIsInlineOriginal this \<longrightarrow>
           map (threadId \<circ> zone_commentThread) news = map threadId ts)"
proof (induction ts arbitrary: this)
  case Nil
  show ?case by simp
next
  case (Cons thread ts)
  define pc where "pc = (case store of None \<Rightarrow> None
      | Some st \<Rightarrow> getDraft st (propertyKey (threadId thread)))"
  define pe where "pe = (case estore of None \<Rightarrow> None
      | Some st \<Rightarrow> getEdits st (propertyKey (threadId thread)))"
  define thread' where "thread' =
      (if truthy pc \<or> truthy pe
       then thread\<lparr>collapsibleState := Some Expanded\<rparr> else thread)"
  define this' where "this' = displayCommentThread ed this own thread' pc pe"
  have tid: "threadId thread' = threadId thread"
    by (simp add: thread'_def)
  have step: "snd (displayInfoThreads ed own store estore (thread # ts) this) =
      snd (displayInfoThreads ed own store estore ts this')"
    by (simp add: Let_def pc_def pe_def thread'_def this'_def split: prod.splits)
  from Cons.IH [of this'] obtain news where news:
    "commentWidgets (snd (displayInfoThreads ed own store estore ts this')) = commentWidgets this' @ news"
    "\<forall>w \<in> set news. zone_owner w = own
       \<and> zone_pendingComment w =
           (case store of None \<Rightarrow> None
            | Some st \<Rightarrow> getDraft st (propertyKey (threadId (zone_commentThread w))))
       \<and> zone_newComment w =
           (case zone_pendingComment w of Some (StringValue s) \<Rightarrow> Some s | _ \<Rightarrow> None)"
    "editorAttached this' \<and> hasModel ed \<and> \<not> editorIsInlineOriginal this' \<longrightarrow>
       map (threadId \<circ> zone_commentThread) news = map threadId ts"
    by blast
  let ?first = "if editorAttached this \<and> hasModel ed \<and> \<not> editorIsInlineOriginal this
        then [new_ReviewZoneWidget own thread' pc pe] else []"
  have w': "commentWidgets this' = commentWidgets this @ ?first"
    by (simp add: this'_def displayCommentThread_widgets)
  have frame: "editorAttached this' = editorAttached this"
    "editorIsInlineOriginal this' = editorIsInlineOriginal this"
    by (simp_all add: this'_def displayCommentThread_frame)
  have "commentWidgets (snd (displayInfoThreads ed own store estore (thread # ts) this))
      = commentWidgets this @ (?first @ news)"
    unfolding step by (simp add: news(1) w')
  moreover have "\<forall>w \<in> set (?first @ news). zone_owner w = own
       \<and> zone_pendingComment w =
           (case store of None \<Rightarrow> None
            | Some st \<Rightarrow> getDraft st (propertyKey (threadId (zone_commentThread w))))
       \<and> zone_newComment w =
           (case zone_pendingComment w of Some (StringValue s) \<Rightarrow> Some s | _ \<Rightarrow> None)"
    using news(2) by (cases store) (auto simp: new_ReviewZoneWidget_fields tid pc_def)
  moreover have "editorAttached this \<and> hasModel ed \<and> \<not> editorIsInlineOriginal this \<longrightarrow>
       map (threadId \<circ> zone_commentThread) (?first @ news) = map threadId (thread # ts)"
    using news(3) frame by (simp add: new_ReviewZoneWidget_fields tid)
  ultimately show ?case
    by blast
qed

lemma displayInfoThreads_frame:
  "pendingNewCommentCache (snd (displayInfoThreads ed own store estore ts this)) = pendingNewCommentCache this
   \<and> pendingEditsCache (snd (displayInfoThreads ed own store estore ts this)) = pendingEditsCache this
   \<and> editorAttached (snd (displayInfoThreads ed own store estore ts this)) = editorAttached this
   \<and> editorIsInlineOriginal (snd (displayInfoThreads ed own store estore ts this)) = editorIsInlineOriginal this"
  by (induction ts arbitrary: this)
     (simp_all add: Let_def displayCommentThread_frame split_beta)

lemma cachedNewComment_cong:
  "pendingNewCommentCache a = pendingNewCommentCache b \<Longrightarrow>
   cachedNewComment a own tid = cachedNewComment b own tid"
  by (simp add: cachedNewComment_def)

lemma readNewCommentCache_cong:
  "pendingNewCommentCache a = pendingNewCommentCache b \<Longrightarrow>
   readNewCommentCache a own tid = readNewCommentCache b own tid"
  by (simp add: readNewCommentCache_def)

lemma displayInfos_widgets:
  "\<exists>news. commentWidgets (snd (displayInfos ed infos this)) = commentWidgets this @ news
     \<and> (\<forall>w \<in> set news.
           zone_pendingComment w =
             readNewCommentCache this (zone_owner w) (threadId (zone_commentThread w))
           \<and> zone_newComment w =
               (case zone_pendingComment w of Some (StringValue s) \<Rightarrow> Some s | _ \<Rightarrow> None))
     \<and> (editorAttached this \<and> hasModel ed \<and> \<not> editorIsInlineOriginal this \<longrightarrow>
           (\<forall>info \<in> set infos. \<forall>t \<in> set (threads info). \<not> isDisposed t \<longrightarrow>
              (\<exists>w \<in> set news. zone_owner w = owner info
                  \<and> threadId (zone_commentThread w) = threadId t)))"
proof (induction infos arbitrary: this)
  case Nil
  show ?case by simp
next
  case (Cons info infos)
  let ?ts = "filter (\<lambda>thread. \<not> isDisposed thread) (threads info)"
  define this1 where "this1 = snd (displayInfoThreads ed (owner info)
      (pendingNewCommentCache this (owner info)) (pendingEditsCache this (owner info)) ?ts this)"
  define this2 where "this2 = this1\<lparr>commentService :=
      foldl (\<lambda>service thread.
               createCommentThreadTemplate service (pending_owner thread)
                 (pending_uri thread) (Some (pending_range thread)))
        (commentService this1)
        (case pendingCommentThreads info of None \<Rightarrow> [] | Some ps \<Rightarrow> ps)\<rparr>"
  have step: "snd (displayInfos ed (info # infos) this) = snd (displayInfos ed infos this2)"
    by (simp add: Let_def split_beta this1_def this2_def)
  have frame1: "pendingNewCommentCache this1 = pendingNewCommentCache this"
    "editorAttached this1 = editorAttached this"
    "editorIsInlineOriginal this1 = editorIsInlineOriginal this"
    unfolding this1_def using displayInfoThreads_frame by blast+
  have frame2: "pendingNewCommentCache this2 = pendingNewCommentCache this"
    "editorAttached this2 = editorAttached this"
    "editorIsInlineOriginal this2 = editorIsInlineOriginal this"
    "commentWidgets this2 = commentWidgets this1"
    by (simp_all add: this2_def frame1)
  from displayInfoThreads_widgets [of ed "owner info" "pendingNewCommentCache this (owner info)"
      "pendingEditsCache this (owner info)" ?ts this]
  obtain news1 where news1:
    "commentWidgets this1 = commentWidgets this @ news1"
    "\<forall>w \<in> set news1. zone_owner w = owner info
       \<and> zone_pendingComment w =
           (case pendingNewCommentCache this (owner info) of None \<Rightarrow> None
            | Some st \<Rightarrow> getDraft st (propertyKey (threadId (zone_commentThread w))))
       \<and> zone_newComment w =
           (case zone_pendingComment w of Some (StringValue s) \<Rightarrow> Some s | _ \<Rightarrow> None)"
    "editorAttached this \<and> hasModel ed \<and> \<not> editorIsInlineOriginal this \<longrightarrow>
       map (threadId \<circ> zone_commentThread) news1 = map threadId ?ts"
    unfolding this1_def by blast
  from Cons.IH [of this2] obtain news2 where news2:
    "commentWidgets (snd (displayInfos ed infos this2)) = commentWidgets this2 @ news2"
    "\<forall>w \<in> set news2.
       zone_pendingComment w =
         readNewCommentCache this2 (zone_owner w) (threadId (zone_commentThread w))
       \<and> zone_newComment w =
           (case zone_pendingComment w of Some (StringValue s) \<Rightarrow> Some s | _ \<Rightarrow> None)"
    "editorAttached this2 \<and> hasModel ed \<and> \<not> editorIsInlineOriginal this2 \<longrightarrow>
       (\<forall>info \<in> set infos. \<forall>t \<in> set (threads info). \<not> isDisposed t \<longrightarrow>
          (\<exists>w \<in> set news2. zone_owner w = owner info
              \<and> threadId (zone_commentThread w) = threadId t))"
    by blast
  have c2: "readNewCommentCache this2 own tid = readNewCommentCache this own tid" for own tid
    by (simp add: readNewCommentCache_def frame2)
  have "commentWidgets (snd (displayInfos ed (info # infos) this)) = commentWidgets this @ (news1 @ news2)"
    unfolding step by (simp add: news2(1) frame2 news1(1))
  moreover have "\<forall>w \<in> set (news1 @ news2).
      zone_pendingComment w =
        readNewCommentCache this (zone_owner w) (threadId (zone_commentThread w))
      \<and> zone_newComment w =
          (case zone_pendingComment w of Some (StringValue s) \<Rightarrow> Some s | _ \<Rightarrow> None)"
  proof
    fix w
    assume "w \<in> set (news1 @ news2)"
    then consider "w \<in> set news1" | "w \<in> set news2"
      by auto
    then show "zone_pendingComment w =
        readNewCommentCache this (zone_owner w) (threadId (zone_commentThread w))
      \<and> zone_newComment w =
          (case zone_pendingComment w of Some (StringValue s) \<Rightarrow> Some s | _ \<Rightarrow> None)"
    proof cases
      case 1
      with news1(2) show ?thesis
        by (simp add: readNewCommentCache_def)
    next
      case 2
      with news2(2) show ?thesis
        by (simp add: c2)
    qed
  qed
  moreover have "\<exists>w \<in> set (news1 @ news2). zone_owner w = owner i
        \<and> threadId (zone_commentThread w) = threadId t"
    if env: "editorAttached this \<and> hasModel ed \<and> \<not> editorIsInlineOriginal this"
      and i: "i \<in> set (info # infos)" and t: "t \<in> set (threads i)" "\<not> isDisposed t" for i t
  proof (cases "i = info")
    case True
    with t have "threadId t \<in> set (map threadId ?ts)"
      by simp
    with news1(3) env have "threadId t \<in> set (map (threadId \<circ> zone_commentThread) news1)"
      by simp
    then obtain w where "w \<in> set news1" "threadId (zone_commentThread w) = threadId t"
      by auto
    with news1(2) True show ?thesis
      by auto
  next
    case False
    with i have "i \<in> set infos" by simp
    with news2(3) env t frame2 obtain w where "w \<in> set news2" "zone_owner w = owner i"
      "threadId (zone_commentThread w) = threadId t"
      by auto
    then show ?thesis
      by auto
  qed
  ultimately show ?case
    by blast
qed

lemma removeCommentWidgetsAndStoreCache_widgets:
  "commentWidgets (removeCommentWidgetsAndStoreCache this) = []"
  by (simp add: removeCommentWidgetsAndStoreCache_def)

lemma storeZoneCache_frame:
  "editorAttached (storeZoneCache this zone) = editorAttached this"
  "editorIsInlineOriginal (storeZoneCache this zone) = editorIsInlineOriginal this"
  by (simp_all add: storeZoneCache_def Let_def)

lemma foldl_storeZoneCache_frame:
  "editorAttached (foldl storeZoneCache this zones) = editorAttached this
   \<and> editorIsInlineOriginal (foldl storeZoneCache this zones) = editorIsInlineOriginal this"
  by (induction zones arbitrary: this) (simp_all add: storeZoneCache_frame)

lemma storeZoneCache_commentInfos:
  "storeZoneCache (this\<lparr>commentInfos := infos\<rparr>) zone = (storeZoneCache this zone)\<lparr>commentInfos := infos\<rparr>"
  by (simp add: storeZoneCache_def Let_def split: option.splits)

lemma foldl_storeZoneCache_commentInfos:
  "foldl storeZoneCache (this\<lparr>commentInfos := infos\<rparr>) zones =
     (foldl storeZoneCache this zones)\<lparr>commentInfos := infos\<rparr>"
  by (induction zones arbitrary: this) (simp_all add: storeZoneCache_commentInfos)

lemma removeCommentWidgetsAndStoreCache_commentInfos:
  "pendingNewCommentCache (removeCommentWidgetsAndStoreCache (this\<lparr>commentInfos := infos\<rparr>)) =
     pendingNewCommentCache (removeCommentWidgetsAndStoreCache this)"
  by (simp add: removeCommentWidgetsAndStoreCache_def foldl_storeZoneCache_commentInfos)

text \<open>
  After \<^verbatim>\<open>setComments\<close> every widget was given, as its draft, what a read of the cache
  the teardown left yields under its owner and thread id, and every thread given that is
  not disposed has a widget.
\<close>

lemma setComments_widgets:
  assumes "editorAttached this" "isCommentingEnabled (commentService this)"
    "hasModel ed" "\<not> editorIsInlineOriginal this"
  shows "(\<forall>w \<in> set (commentWidgets (setComments ed this newInfos)).
            zone_pendingComment w =
              readNewCommentCache (removeCommentWidgetsAndStoreCache this)
                (zone_owner w) (threadId (zone_commentThread w))
            \<and> zone_newComment w =
                (case zone_pendingComment w of Some (StringValue s) \<Rightarrow> Some s | _ \<Rightarrow> None))
       \<and> (\<forall>info \<in> set newInfos. \<forall>t \<in> set (threads info). \<not> isDisposed t \<longrightarrow>
            (\<exists>w \<in> set (commentWidgets (setComments ed this newInfos)).
               zone_owner w = owner info \<and> threadId (zone_commentThread w) = threadId t))"
proof -
  define this1 where "this1 = removeCommentWidgetsAndStoreCache (this\<lparr>commentInfos := newInfos\<rparr>)"
  have infos1: "commentInfos this1 = newInfos"
    by (simp add: this1_def removeCommentWidgetsAndStoreCache_def foldl_storeZoneCache_commentInfos)
  have env1: "editorAttached this1" "\<not> editorIsInlineOriginal this1"
    using assms foldl_storeZoneCache_frame [of "this\<lparr>commentInfos := newInfos\<rparr>" "commentWidgets this"]
    by (simp_all add: this1_def removeCommentWidgetsAndStoreCache_def)
  have c1: "readNewCommentCache this1 own tid =
      readNewCommentCache (removeCommentWidgetsAndStoreCache this) own tid" for own tid
    unfolding this1_def
    by (rule readNewCommentCache_cong) (rule removeCommentWidgetsAndStoreCache_commentInfos)
  have "commentWidgets (setComments ed this newInfos) = commentWidgets (snd (displayInfos ed newInfos this1))"
    using assms(1,2) by (simp add: setComments_def Let_def split_beta this1_def [symmetric] infos1)
  moreover from displayInfos_widgets [of ed newInfos this1] obtain news where
    "commentWidgets (snd (displayInfos ed newInfos this1)) = commentWidgets this1 @ news"
    "\<forall>w \<in> set news.
       zone_pendingComment w =
         readNewCommentCache this1 (zone_owner w) (threadId (zone_commentThread w))
       \<and> zone_newComment w =
           (case zone_pendingComment w of Some (StringValue s) \<Rightarrow> Some s | _ \<Rightarrow> None)"
    "editorAttached this1 \<and> hasModel ed \<and> \<not> editorIsInlineOriginal this1 \<longrightarrow>
       (\<forall>info \<in> set newInfos. \<forall>t \<in> set (threads info). \<not> isDisposed t \<longrightarrow>
          (\<exists>w \<in> set news. zone_owner w = owner info
              \<and> threadId (zone_commentThread w) = threadId t))"
    by blast
  moreover have "commentWidgets this1 = []"
    by (simp add: this1_def removeCommentWidgetsAndStoreCache_widgets)
  ultimately show ?thesis
    using env1 assms(3) by (simp add: c1)
qed

text \<open>
  The round trip of a draft under a thread id that names no member of
  \<^verbatim>\<open>Object.prototype\<close>, when no owner id names one either. For a widget that is the only
  live widget of its owner and thread id: after the teardown the new-comment cache holds, under that owner and thread id, the
  widget's new-comment text if that text is not empty and differs from the body of the
  thread's last comment, and holds nothing there otherwise (an entry stored before is
  deleted). When \<^verbatim>\<open>setComments\<close> then displays the threads again (editor attached with a
  model, commenting enabled), every widget of that owner and thread id is given exactly
  this stored text as its draft, and every thread given has its widget.
\<close>

lemma draft_round_trip:
  assumes "zone \<in> set (commentWidgets this)"
    and "\<forall>w \<in> set (commentWidgets this). w \<noteq> zone \<longrightarrow> zoneKey w \<noteq> zoneKey zone"
    and "plainPropertyName (propertyKey (threadId (zone_commentThread zone)))"
    and "\<forall>w \<in> set (commentWidgets this). plainPropertyName (zone_owner w)"
    and "\<forall>info \<in> set newInfos. plainPropertyName (owner info)"
  shows "cachedNewComment (removeCommentWidgetsAndStoreCache this)
           (zone_owner zone) (threadId (zone_commentThread zone))
         = (if draftPending zone then zone_newComment zone else None)
       \<and> (editorAttached this \<and> isCommentingEnabled (commentService this)
            \<and> hasModel ed \<and> \<not> editorIsInlineOriginal this \<longrightarrow>
           (\<forall>w \<in> set (commentWidgets (setComments ed this newInfos)).
              zone_owner w = zone_owner zone
              \<and> threadId (zone_commentThread w) = threadId (zone_commentThread zone) \<longrightarrow>
              zone_pendingComment w =
                map_option StringValue (if draftPending zone then zone_newComment zone else None)
              \<and> zone_newComment w = (if draftPending zone then zone_newComment zone else None))
           \<and> (\<forall>info \<in> set newInfos. \<forall>t \<in> set (threads info). \<not> isDisposed t \<longrightarrow>
                (\<exists>w \<in> set (commentWidgets (setComments ed this newInfos)).
                   zone_owner w = owner info \<and> threadId (zone_commentThread w) = threadId t)))"
proof -
  let ?draft = "if draftPending zone then zone_newComment zone else None"
  note stored = cachedNewComment_teardown [OF assms(1,2) plainPropertyName_not_proto [OF assms(3)]]
  have read: "readNewCommentCache (removeCommentWidgetsAndStoreCache this)
      (zone_owner zone) (threadId (zone_commentThread zone)) = map_option StringValue ?draft"
    using readNewCommentCache_plain [OF assms(3)] stored by simp
  have "(\<forall>w \<in> set (commentWidgets (setComments ed this newInfos)).
              zone_owner w = zone_owner zone
              \<and> threadId (zone_commentThread w) = threadId (zone_commentThread zone) \<longrightarrow>
              zone_pendingComment w = map_option StringValue ?draft
              \<and> zone_newComment w = ?draft)
           \<and> (\<forall>info \<in> set newInfos. \<forall>t \<in> set (threads info). \<not> isDisposed t \<longrightarrow>
                (\<exists>w \<in> set (commentWidgets (setComments ed this newInfos)).
                   zone_owner w = owner info \<and> threadId (zone_commentThread w) = threadId t))"
    if env: "editorAttached this" "isCommentingEnabled (commentService this)"
      "hasModel ed" "\<not> editorIsInlineOriginal this"
  proof -
    note shown = setComments_widgets [OF env, of newInfos]
    have "zone_pendingComment w = map_option StringValue ?draft \<and> zone_newComment w = ?draft"
      if "w \<in> set (commentWidgets (setComments ed this newInfos))"
        "zone_owner w = zone_owner zone"
        "threadId (zone_commentThread w) = threadId (zone_commentThread zone)" for w
    proof -
      from shown that(1) have w: "zone_pendingComment w =
          readNewCommentCache (removeCommentWidgetsAndStoreCache this)
            (zone_owner w) (threadId (zone_commentThread w))"
        "zone_newComment w =
          (case zone_pendingComment w of Some (StringValue s) \<Rightarrow> Some s | _ \<Rightarrow> None)"
        by blast+
      from w(1) that(2,3) read have given: "zone_pendingComment w = map_option StringValue ?draft"
        by simp
      have "(case map_option StringValue ?draft of Some (StringValue s) \<Rightarrow> Some s | _ \<Rightarrow> None)
          = ?draft"
        by (cases ?draft) simp_all
      with w(2) given show ?thesis
        by simp
    qed
    with shown show ?thesis
      by blast
  qed
  with stored show ?thesis
    by blast
qed

lemma draft_round_trip_example:
  "map zone_newComment
     (commentWidgets
        (setComments plainEditor
           (emptyController\<lparr>commentWidgets :=
              [widgetWith ''O'' (threadWith ''t1'' ''a'') (Some ''ab'')]\<rparr>)
           [(providerInfo ''O'' (rangesInfo 0 []))\<lparr>threads := [threadWith ''t1'' ''a'']\<rparr>]))
     = [Some ''ab'']
   \<and> map zone_newComment
     (commentWidgets
        (setComments plainEditor
           (emptyController\<lparr>commentWidgets :=
              [widgetWith ''O'' (threadWith ''t1'' ''a'') (Some ''a'')]\<rparr>)
           [(providerInfo ''O'' (rangesInfo 0 []))\<lparr>threads := [threadWith ''t1'' ''a'']\<rparr>]))
     = [None]
   \<and> cachedNewComment
       (removeCommentWidgetsAndStoreCache
          (emptyController\<lparr>commentWidgets :=
             [widgetWith ''O'' (threadWith ''t1'' ''a'') (Some ''ab'')]\<rparr>))
       ''O'' (Some ''t1'') = Some ''ab''"
proof -
  let ?infos = "[(providerInfo ''O'' (rangesInfo 0 []))\<lparr>threads := [threadWith ''t1'' ''a'']\<rparr>]"
  have fields: "zone_owner (widgetWith own thread str) = own"
    "zone_commentThread (widgetWith own thread str) = thread"
    "zone_newComment (widgetWith own thread str) = str"
    "zone_edits (widgetWith own thread str) = []" for own thread str
    by (cases str; simp add: widgetWith_def new_ReviewZoneWidget_def)+
  have thread: "threadId (threadWith tid str) = Some tid"
    "lastCommentBody (threadWith tid str) = Some str"
    "isDisposed (threadWith tid str) = False" for tid str
    by (simp_all add: threadWith_def lastCommentBody_def)
  have ctl: "editorAttached emptyController"
    "isCommentingEnabled (commentService emptyController)"
    "\<not> editorIsInlineOriginal emptyController"
    "pendingNewCommentCache emptyController = Map.empty"
    "pendingEditsCache emptyController = Map.empty"
    by (simp_all add: emptyController_def)
  have ed: "hasModel plainEditor"
    by (simp add: plainEditor_def)
  have plain: "plainPropertyName (propertyKey (Some ''t1''))" "plainPropertyName ''O''"
    by (simp_all add: plainPropertyName_def propertyKey_def objectPrototypeNames_def)
  have pending: "draftPending (widgetWith ''O'' (threadWith ''t1'' ''a'') (Some ''ab''))"
    "\<not> draftPending (widgetWith ''O'' (threadWith ''t1'' ''a'') (Some ''a''))"
    by (simp_all add: draftPending_def fields thread)
  have shape: "\<exists>w. commentWidgets (setComments plainEditor
      (emptyController\<lparr>commentWidgets := [widgetWith ''O'' (threadWith ''t1'' ''a'') str]\<rparr>) ?infos) = [w]
      \<and> zone_owner w = ''O'' \<and> threadId (zone_commentThread w) = Some ''t1''" for str
    by (simp add: setComments_def removeCommentWidgetsAndStoreCache_def emptyController_def
        storeZoneCache_def fields thread providerInfo_def displayCommentThread_def ed Let_def
        new_ReviewZoneWidget_def split_beta split: option.splits)
  have draft: "map zone_newComment (commentWidgets (setComments plainEditor
      (emptyController\<lparr>commentWidgets := [widgetWith ''O'' (threadWith ''t1'' ''a'') str]\<rparr>) ?infos))
      = [if draftPending (widgetWith ''O'' (threadWith ''t1'' ''a'') str) then str else None]" for str
  proof -
    let ?zone = "widgetWith ''O'' (threadWith ''t1'' ''a'') str"
    let ?ctl = "emptyController\<lparr>commentWidgets := [?zone]\<rparr>"
    have "?zone \<in> set (commentWidgets ?ctl)"
      and "\<forall>w \<in> set (commentWidgets ?ctl). w \<noteq> ?zone \<longrightarrow> zoneKey w \<noteq> zoneKey ?zone"
      and "plainPropertyName (propertyKey (threadId (zone_commentThread ?zone)))"
      and "\<forall>w \<in> set (commentWidgets ?ctl). plainPropertyName (zone_owner w)"
      and "\<forall>info \<in> set ?infos. plainPropertyName (owner info)"
      by (simp_all add: ctl fields thread plain providerInfo_def)
    from draft_round_trip [OF this, of plainEditor]
    have "\<forall>w \<in> set (commentWidgets (setComments plainEditor ?ctl ?infos)).
        zone_owner w = ''O'' \<and> threadId (zone_commentThread w) = Some ''t1'' \<longrightarrow>
        zone_newComment w = (if draftPending ?zone then str else None)"
      by (simp add: ctl ed fields thread)
    with shape [of str] show ?thesis
      by auto
  qed
  have "cachedNewComment (removeCommentWidgetsAndStoreCache
      (emptyController\<lparr>commentWidgets := [widgetWith ''O'' (threadWith ''t1'' ''a'') (Some ''ab'')]\<rparr>))
      ''O'' (Some ''t1'') = Some ''ab''"
    using draft_round_trip [of "widgetWith ''O'' (threadWith ''t1'' ''a'') (Some ''ab'')"
        "emptyController\<lparr>commentWidgets := [widgetWith ''O'' (threadWith ''t1'' ''a'') (Some ''ab'')]\<rparr>"
        "[]"]
      pending(1) plain
    by (simp add: ctl fields thread)
  with draft [of "Some ''ab''"] draft [of "Some ''a''"] pending show ?thesis
    by simp
qed

text \<open>
  C3 (draft preservation round trip). The round trip fails for a thread whose id names a
  member of \<^verbatim>\<open>Object.prototype\<close>. The thread of owner \<open>O\<close> has the id \<^verbatim>\<open>__proto__\<close> and
  the last comment \<open>a\<close>, and the user has typed \<open>ab\<close>: a draft worth keeping. The
  teardown assigns it under \<^verbatim>\<open>__proto__\<close>, which stores nothing, and when the thread is
  displayed again the read under \<^verbatim>\<open>__proto__\<close> yields the prototype object: the widget is
  given that object as its draft, not the text \<open>ab\<close>, and the thread is expanded.
\<close>

theorem C3_inherited_thread_id_breaks_round_trip:
  "draftPending (widgetWith ''O'' (threadWith ''__proto__'' ''a'') (Some ''ab''))
   \<and> cachedNewComment
       (removeCommentWidgetsAndStoreCache
          (emptyController\<lparr>commentWidgets :=
             [widgetWith ''O'' (threadWith ''__proto__'' ''a'') (Some ''ab'')]\<rparr>))
       ''O'' (Some ''__proto__'') = None
   \<and> map (\<lambda>w. (zone_pendingComment w, collapsibleState (zone_commentThread w)))
       (commentWidgets
          (setComments plainEditor
             (emptyController\<lparr>commentWidgets :=
                [widgetWith ''O'' (threadWith ''__proto__'' ''a'') (Some ''ab'')]\<rparr>)
             [(providerInfo ''O'' (rangesInfo 0 []))\<lparr>threads := [threadWith ''__proto__'' ''a'']\<rparr>]))
     = [(Some (PrototypeMember ''__proto__''), Some Expanded)]"
proof -
  have fields: "zone_owner (widgetWith own thread str) = own"
    "zone_commentThread (widgetWith own thread str) = thread"
    "zone_newComment (widgetWith own thread str) = str"
    "zone_edits (widgetWith own thread str) = []" for own thread str
    by (cases str; simp add: widgetWith_def new_ReviewZoneWidget_def)+
  have thread: "threadId (threadWith tid str) = Some tid"
    "lastCommentBody (threadWith tid str) = Some str"
    "isDisposed (threadWith tid str) = False" for tid str
    by (simp_all add: threadWith_def lastCommentBody_def)
  have ed: "hasModel plainEditor"
    by (simp add: plainEditor_def)
  have pending: "draftPending (widgetWith ''O'' (threadWith ''__proto__'' ''a'') (Some ''ab''))"
    by (simp add: draftPending_def fields thread)
  have stored: "cachedNewComment
       (removeCommentWidgetsAndStoreCache
          (emptyController\<lparr>commentWidgets :=
             [widgetWith ''O'' (threadWith ''__proto__'' ''a'') (Some ''ab'')]\<rparr>))
       ''O'' (Some ''__proto__'') = None"
    by (simp add: cachedNewComment_def removeCommentWidgetsAndStoreCache_def emptyController_def
        storeZoneCache_def fields thread Let_def propertyKey_def setDraft_def)
  have proto: "map (\<lambda>w. (zone_pendingComment w, collapsibleState (zone_commentThread w)))
       (commentWidgets
          (setComments plainEditor
             (emptyController\<lparr>commentWidgets :=
                [widgetWith ''O'' (threadWith ''__proto__'' ''a'') (Some ''ab'')]\<rparr>)
             [(providerInfo ''O'' (rangesInfo 0 []))\<lparr>threads := [threadWith ''__proto__'' ''a'']\<rparr>]))
     = [(Some (PrototypeMember ''__proto__''), Some Expanded)]"
    by (simp add: setComments_def removeCommentWidgetsAndStoreCache_def emptyController_def
        storeZoneCache_def fields thread providerInfo_def displayCommentThread_def ed Let_def
        new_ReviewZoneWidget_def split_beta propertyKey_def setDraft_def deleteDraft_def
        setEdits_def deleteEdits_def getDraft_def getEdits_def truthy_def objectPrototypeNames_def)
  from pending stored proto show ?thesis
    by (intro conjI)
qed

theorem C3_inherited_thread_id_breaks_round_trip_witness:
  "map zone_pendingComment
     (commentWidgets
        (setComments plainEditor
           (emptyController\<lparr>commentWidgets :=
              [widgetWith ''O'' (threadWith ''__proto__'' ''a'') (Some ''ab'')]\<rparr>)
           [(providerInfo ''O'' (rangesInfo 0 []))\<lparr>threads := [threadWith ''__proto__'' ''a'']\<rparr>]))
     = [Some (PrototypeMember ''__proto__'')]
   \<and> Some (PrototypeMember ''__proto__'') \<noteq> Some (StringValue ''ab'')"
proof -
  let ?ws = "commentWidgets
        (setComments plainEditor
           (emptyController\<lparr>commentWidgets :=
              [widgetWith ''O'' (threadWith ''__proto__'' ''a'') (Some ''ab'')]\<rparr>)
           [(providerInfo ''O'' (rangesInfo 0 []))\<lparr>threads := [threadWith ''__proto__'' ''a'']\<rparr>])"
  from C3_inherited_thread_id_breaks_round_trip
  have "map (\<lambda>w. (zone_pendingComment w, collapsibleState (zone_commentThread w))) ?ws
      = [(Some (PrototypeMember ''__proto__''), Some Expanded)]"
    by (elim conjE)
  then have "map fst (map (\<lambda>w. (zone_pendingComment w, collapsibleState (zone_commentThread w))) ?ws)
      = map fst [(Some (PrototypeMember ''__proto__''), Some Expanded)]"
    by (rule arg_cong)
  then show ?thesis
    by (simp add: comp_def)
qed

section \<open>Thread updates\<close>

lemma filter_removeFirst_unique:
  assumes "length (filter Q xs) \<le> 1"
  shows "filter Q (removeFirst Q xs) = []"
  using assms
proof (induction xs)
  case Nil
  show ?case by simp
next
  case (Cons x xs)
  show ?case
  proof (cases "Q x")
    case True
    with Cons.prems have "filter Q xs = []" by simp
    with True show ?thesis by simp
  next
    case False
    with Cons show ?thesis by simp
  qed
qed

lemma removeFirst_cong:
  assumes "\<forall>x \<in> set xs. P x = Q x"
  shows "removeFirst P xs = removeFirst Q xs"
  using assms by (induction xs) auto

lemma filter_updateFirst_preserved:
  assumes "\<forall>x. P x \<longrightarrow> Q (f x) = Q x"
  shows "map Q (updateFirst P f xs) = map Q xs"
  using assms by (induction xs) auto

lemma filter_updateFirst_new:
  assumes "filter Q xs = []" and "filter P xs \<noteq> []" and "\<forall>x. P x \<longrightarrow> Q (f x)"
  shows "\<exists>x. P x \<and> filter Q (updateFirst P f xs) = [f x]"
  using assms
proof (induction xs)
  case Nil
  then show ?case by simp
next
  case (Cons x xs)
  show ?case
  proof (cases "P x")
    case True
    with Cons.prems have "filter Q (updateFirst P f (x # xs)) = [f x]"
      by (simp split: if_splits)
    with True show ?thesis by blast
  next
    case False
    with Cons.prems have "filter Q xs = []" "filter P xs \<noteq> []"
      by (simp_all split: if_splits)
    with Cons.IH Cons.prems(3) obtain y where "P y" "filter Q (updateFirst P f xs) = [f y]"
      by blast
    moreover from Cons.prems(1) have "\<not> Q x"
      by (simp split: if_splits)
    ultimately show ?thesis
      using False by auto
  qed
qed

lemma removeThread_frame:
  "editorAttached (removeThread own this t) = editorAttached this"
  "editorIsInlineOriginal (removeThread own this t) = editorIsInlineOriginal this"
  by (simp_all add: removeThread_def)

lemma changeThread_frame:
  "editorAttached (changeThread own this t) = editorAttached this"
  "editorIsInlineOriginal (changeThread own this t) = editorIsInlineOriginal this"
  by (simp_all add: changeThread_def)

lemma changedPhase_frame:
  "editorAttached (changedPhase own ts this) = editorAttached this
   \<and> editorIsInlineOriginal (changedPhase own ts this) = editorIsInlineOriginal this"
  unfolding changedPhase_def
  by (induction ts arbitrary: this) (simp_all add: changeThread_frame)

text \<open>A changed thread leaves the owner and the thread id of every widget as they are.\<close>

lemma changeThread_ids:
  "map (\<lambda>w. zone_owner w = own' \<and> threadId (zone_commentThread w) = tid)
       (commentWidgets (changeThread own this t)) =
   map (\<lambda>w. zone_owner w = own' \<and> threadId (zone_commentThread w) = tid) (commentWidgets this)"
  unfolding changeThread_def
  by (simp add: zone_update_def filter_updateFirst_preserved)

lemma filter_empty_map_cong:
  assumes "map Q xs = map Q ys" and "filter Q ys = []"
  shows "filter Q xs = []"
proof -
  from assms(2) have "\<forall>b \<in> set (map Q ys). \<not> b"
    by (auto simp: filter_empty_conv)
  with assms(1) have "\<forall>b \<in> set (map Q xs). \<not> b"
    by simp
  then show ?thesis
    by (auto simp: filter_empty_conv)
qed

lemma changedPhase_no_widget:
  assumes "filter (\<lambda>w. zone_owner w = own' \<and> threadId (zone_commentThread w) = tid)
             (commentWidgets this) = []"
  shows "filter (\<lambda>w. zone_owner w = own' \<and> threadId (zone_commentThread w) = tid)
           (commentWidgets (changedPhase own ts this)) = []"
  using assms unfolding changedPhase_def
proof (induction ts arbitrary: this)
  case Nil
  then show ?case by simp
next
  case (Cons t ts)
  have "filter (\<lambda>w. zone_owner w = own' \<and> threadId (zone_commentThread w) = tid)
      (commentWidgets (changeThread own this t)) = []"
    using changeThread_ids Cons.prems by (rule filter_empty_map_cong)
  with Cons.IH show ?case by simp
qed

lemma addThread_new_widget:
  assumes none: "filter (\<lambda>w. zone_owner w = own \<and> threadId (zone_commentThread w) = threadId t)
                   (commentWidgets this) = []"
    and env: "editorAttached this" "hasModel ed" "\<not> editorIsInlineOriginal this"
  shows "\<exists>w. filter (\<lambda>w. zone_owner w = own \<and> threadId (zone_commentThread w) = threadId t)
                (commentWidgets (addThread ed own uri this t)) = [w]
              \<and> zone_commentThread w = t"
proof -
  let ?Q = "\<lambda>w. zone_owner w = own \<and> threadId (zone_commentThread w) = threadId t"
  let ?isNew = "\<lambda>zoneWidget. zone_owner zoneWidget = own
                 \<and> commentThreadHandle (zone_commentThread zoneWidget) = - 1
                 \<and> equalsRange (thread_range (zone_commentThread zoneWidget)) (thread_range t)"
  show ?thesis
  proof (cases "filter ?isNew (commentWidgets this) = []")
    case False
    have "\<forall>x. ?isNew x \<longrightarrow> ?Q (zone_update x t)"
      by (simp add: zone_update_def)
    with none False obtain x where
      "filter ?Q (updateFirst ?isNew (\<lambda>zoneWidget. zone_update zoneWidget t) (commentWidgets this))
         = [zone_update x t]"
      using filter_updateFirst_new [of ?Q "commentWidgets this" ?isNew "\<lambda>zoneWidget. zone_update zoneWidget t"]
      by blast
    moreover have "commentWidgets (addThread ed own uri this t) =
        updateFirst ?isNew (\<lambda>zoneWidget. zone_update zoneWidget t) (commentWidgets this)"
      using none False by (simp add: addThread_def Let_def)
    moreover have "zone_commentThread (zone_update x t) = t"
      by (simp add: zone_update_def)
    ultimately show ?thesis
      by simp
  next
    case True
    have "\<exists>nw. commentWidgets (addThread ed own uri this t) = commentWidgets this @ [nw]
        \<and> zone_owner nw = own \<and> zone_commentThread nw = t"
      using none True env
      by (simp add: addThread_def Let_def split_beta displayCommentThread_def
          new_ReviewZoneWidget_def)
    then obtain nw where "commentWidgets (addThread ed own uri this t) = commentWidgets this @ [nw]"
      "zone_owner nw = own" "zone_commentThread nw = t"
      by blast
    with none show ?thesis
      by simp
  qed
qed

lemma pendingPhase_widgets:
  "commentWidgets (pendingPhase ps this) = commentWidgets this"
  unfolding pendingPhase_def
  by (induction ps arbitrary: this) (simp_all add: createPendingThread_def)

text \<open>
  C6 (batch order; removed then added), as the code has it. When the handler processes a
  batch (editor attached with a model, commenting enabled, owner known, threads of this
  resource, the editor not the original side of an inline diff), the four phases run in the
  order removed, changed, added, pending. If the batch removes \<open>T\<close> and adds \<open>T'\<close> with the
  same thread id, that id is not the empty string, and at most one live widget of the owner
  had that id before, then exactly one live widget of the owner has that id afterwards, and
  it shows \<open>T'\<close>.
\<close>

theorem C6_removed_then_added:
  assumes env: "editorAttached this" "hasModel ed" "isCommentingEnabled (commentService this)"
      "\<not> editorIsInlineOriginal this"
    and known: "filter (\<lambda>info. owner info = ev_owner e) (commentInfos this) \<noteq> []"
    and batch: "removed e = [T]" "added e = [T']" "threadId T' = threadId T"
      "threadId T \<noteq> Some []"
    and res: "onThisResource (modelUri ed) T" "onThisResource (modelUri ed) T'"
    and uniq: "length (filter (\<lambda>w. zone_owner w = ev_owner e
                  \<and> threadId (zone_commentThread w) = threadId T) (commentWidgets this)) \<le> 1"
  shows "onDidUpdateCommentThreads ed this e =
           pendingPhase (filter (\<lambda>p. pending_uri p = modelUri ed) (pending e))
             (addedPhase ed (ev_owner e) (modelUri ed) [T']
                (changedPhase (ev_owner e) (filter (onThisResource (modelUri ed)) (changed e))
                   (removedPhase (ev_owner e) [T] this)))
       \<and> (\<exists>w. filter (\<lambda>w. zone_owner w = ev_owner e
                          \<and> threadId (zone_commentThread w) = threadId T')
                 (commentWidgets (onDidUpdateCommentThreads ed this e)) = [w]
              \<and> zone_commentThread w = T')"
proof -
  let ?Q = "\<lambda>w. zone_owner w = ev_owner e \<and> threadId (zone_commentThread w) = threadId T"
  let ?changed = "filter (onThisResource (modelUri ed)) (changed e)"
  let ?pending = "filter (\<lambda>p. pending_uri p = modelUri ed) (pending e)"
  define this1 where "this1 = removedPhase (ev_owner e) [T] this"
  define this2 where "this2 = changedPhase (ev_owner e) ?changed this1"
  define this3 where "this3 = addedPhase ed (ev_owner e) (modelUri ed) [T'] this2"
  have order: "onDidUpdateCommentThreads ed this e = pendingPhase ?pending this3"
    using env known batch(1,2) res
    by (simp add: onDidUpdateCommentThreads_def editorURI_def Let_def this1_def this2_def this3_def)
  have "removeFirst (\<lambda>zoneWidget. zone_owner zoneWidget = ev_owner e
            \<and> threadId (zone_commentThread zoneWidget) = threadId T
            \<and> threadId (zone_commentThread zoneWidget) \<noteq> Some []) (commentWidgets this)
        = removeFirst ?Q (commentWidgets this)"
    using batch(4) by (intro removeFirst_cong) auto
  then have "commentWidgets this1 = removeFirst ?Q (commentWidgets this)"
    by (simp add: this1_def removedPhase_def removeThread_def)
  with uniq have none1: "filter ?Q (commentWidgets this1) = []"
    by (simp add: filter_removeFirst_unique)
  have env1: "editorAttached this1" "\<not> editorIsInlineOriginal this1"
    using env by (simp_all add: this1_def removedPhase_def removeThread_frame)
  have none2: "filter ?Q (commentWidgets this2) = []"
    unfolding this2_def using none1 by (rule changedPhase_no_widget)
  have env2: "editorAttached this2" "\<not> editorIsInlineOriginal this2"
    using env1 changedPhase_frame [of "ev_owner e" ?changed this1] by (simp_all add: this2_def)
  have "\<exists>w. filter (\<lambda>w. zone_owner w = ev_owner e \<and> threadId (zone_commentThread w) = threadId T')
                (commentWidgets (addThread ed (ev_owner e) (modelUri ed) this2 T')) = [w]
              \<and> zone_commentThread w = T'"
    using none2 env2 env(2) batch(3) by (intro addThread_new_widget) simp_all
  then have "\<exists>w. filter (\<lambda>w. zone_owner w = ev_owner e \<and> threadId (zone_commentThread w) = threadId T')
                (commentWidgets (pendingPhase ?pending this3)) = [w]
              \<and> zone_commentThread w = T'"
    by (simp add: pendingPhase_widgets this3_def addedPhase_def)
  with order show ?thesis
    by (simp add: this1_def this2_def this3_def)
qed

theorem C6_removed_then_added_witness:
  "\<exists>w. filter (\<lambda>w. zone_owner w = ''O'' \<and> threadId (zone_commentThread w) = Some ''t1'')
         (commentWidgets
            (onDidUpdateCommentThreads plainEditor (controllerShowing (threadWith ''t1'' ''a''))
               (replaceBatch (threadWith ''t1'' ''a'') (threadWith ''t1'' ''b'')))) = [w]
       \<and> zone_commentThread w = threadWith ''t1'' ''b''"
proof -
  let ?T = "threadWith ''t1'' ''a''" and ?T' = "threadWith ''t1'' ''b''"
  have thread: "threadId (threadWith tid str) = Some tid"
    "onThisResource (modelUri plainEditor) (threadWith tid str)" for tid str
    by (simp_all add: threadWith_def onThisResource_def plainEditor_def)
  have env: "editorAttached (controllerShowing ?T)" "hasModel plainEditor"
    "isCommentingEnabled (commentService (controllerShowing ?T))"
    "\<not> editorIsInlineOriginal (controllerShowing ?T)"
    by (simp_all add: controllerShowing_def emptyController_def plainEditor_def)
  have known: "filter (\<lambda>info. owner info = ev_owner (replaceBatch ?T ?T'))
      (commentInfos (controllerShowing ?T)) \<noteq> []"
    by (simp add: controllerShowing_def replaceBatch_def providerInfo_def)
  have batch: "removed (replaceBatch ?T ?T') = [?T]" "added (replaceBatch ?T ?T') = [?T']"
    "threadId ?T' = threadId ?T" "threadId ?T \<noteq> Some []"
    by (simp_all add: replaceBatch_def thread)
  have uniq: "length (filter (\<lambda>w. zone_owner w = ev_owner (replaceBatch ?T ?T')
      \<and> threadId (zone_commentThread w) = threadId ?T) (commentWidgets (controllerShowing ?T))) \<le> 1"
    by (simp add: controllerShowing_def)
  have own: "ev_owner (replaceBatch ?T ?T') = ''O''"
    by (simp add: replaceBatch_def)
  from C6_removed_then_added [OF env known batch thread(2) thread(2) uniq, THEN conjunct2]
  show ?thesis
    unfolding own thread .
qed

text \<open>
  The claim as stated fails for the empty thread id: the removal skips a widget whose thread
  id is the empty string, the added thread then finds that widget and is dropped, and the
  widget goes on showing the removed thread.
\<close>

theorem C6_empty_thread_id_counterexample:
  "\<not> (\<exists>w. filter (\<lambda>w. zone_owner w = ''O'' \<and> threadId (zone_commentThread w) = Some '''')
         (commentWidgets
            (onDidUpdateCommentThreads plainEditor (controllerShowing (threadWith '''' ''a''))
               (replaceBatch (threadWith '''' ''a'') (threadWith '''' ''b'')))) = [w]
       \<and> zone_commentThread w = threadWith '''' ''b'')"
proof -
  have "commentWidgets
      (onDidUpdateCommentThreads plainEditor (controllerShowing (threadWith '''' ''a''))
         (replaceBatch (threadWith '''' ''a'') (threadWith '''' ''b'')))
      = [widgetWith ''O'' (threadWith '''' ''a'') None]"
    by (simp add: onDidUpdateCommentThreads_def editorURI_def controllerShowing_def
        emptyController_def plainEditor_def replaceBatch_def providerInfo_def onThisResource_def
        threadWith_def removedPhase_def changedPhase_def addedPhase_def pendingPhase_def
        removeThread_def addThread_def widgetWith_def new_ReviewZoneWidget_def Let_def)
  moreover have "threadWith '''' ''a'' \<noteq> threadWith '''' ''b''"
    by (simp add: threadWith_def)
  ultimately show ?thesis
    by (simp add: widgetWith_def new_ReviewZoneWidget_def threadWith_def)
qed

end
